theory Spec2Isabelle
  imports Main "HOL-Library.Word"
begin

section \<open>Errors, strings and numbers of the Go runtime\<close>

text \<open>
  The package \<open>nyaa\<close> builds its errors with \<open>github.com/pkg/errors\<close> and receives
  others from \<open>strconv\<close> and \<open>go-units\<close>. An error is modelled by how it was built, so
  that the message and the cause chain stay inspectable.
\<close>

datatype numerr = ErrSyntax | ErrRange

datatype error =
    New string               \<comment> \<open>\<open>errors.New(msg)\<close>\<close>
  | Errorf string            \<comment> \<open>\<open>errors.Errorf\<close> / \<open>fmt.Errorf\<close>, the message after formatting\<close>
  | Wrap error string        \<comment> \<open>\<open>errors.Wrap(cause, msg)\<close>\<close>
  | NumError string string numerr  \<comment> \<open>\<open>&strconv.NumError{Func, Num, Err}\<close>\<close>

text \<open>Go's \<open>uint\<close> and \<open>int\<close> are taken at their 64-bit width, \<open>uint64\<close> is 64 bits.\<close>

type_synonym uint = "64 word"
type_synonym uint64 = "64 word"

definition isDigit :: "char \<Rightarrow> bool" where
  "isDigit c = (48 \<le> (of_char c :: nat) \<and> (of_char c :: nat) \<le> 57)"

definition digitVal :: "char \<Rightarrow> nat" where
  "digitVal c = of_char c - 48"

definition digitChar :: "nat \<Rightarrow> char" where
  "digitChar d = ''0123456789'' ! d"

text \<open>\<open>strconv.FormatInt(i, 10)\<close>, which is also what the verb \<open>%d\<close> prints.\<close>

fun natDigits :: "nat \<Rightarrow> string" where
  "natDigits n = (if n < 10 then [digitChar n] else natDigits (n div 10) @ [digitChar (n mod 10)])"

declare natDigits.simps [simp del]

definition FormatInt :: "int \<Rightarrow> string" where
  "FormatInt i = (if i < 0 then CHR ''-'' # natDigits (nat (- i)) else natDigits (nat i))"

text \<open>
  The digit loop of \<open>strconv.ParseUint(s, 10, 64)\<close>: a byte that is no decimal digit is
  a syntax error, a value that leaves 64 bits a range error, whichever the scan from the
  left meets first.
\<close>

fun parseUintLoop :: "nat \<Rightarrow> string \<Rightarrow> numerr + nat" where
  "parseUintLoop n [] = Inr n"
| "parseUintLoop n (c # cs) =
     (if \<not> isDigit c then Inl ErrSyntax
      else if n \<ge> (2 ^ 64 - 1) div 10 + 1 then Inl ErrRange
      else if n * 10 + digitVal c > 2 ^ 64 - 1 then Inl ErrRange
      else parseUintLoop (n * 10 + digitVal c) cs)"

text \<open>
  \<open>strconv.Atoi\<close> on a 64-bit platform: an optional sign, then decimal digits, the value
  within \<open>[-2^63, 2^63)\<close>. The value Go returns beside a non-nil error is dropped: no
  caller in the package reads it.
\<close>

definition Atoi :: "string \<Rightarrow> error + int" where
  "Atoi s0 =
     (if s0 = [] then Inl (NumError ''Atoi'' s0 ErrSyntax)
      else
        let neg = (hd s0 = CHR ''-'');
            s = (if hd s0 = CHR ''+'' \<or> hd s0 = CHR ''-'' then tl s0 else s0)
        in if s = [] then Inl (NumError ''Atoi'' s0 ErrSyntax)
           else case parseUintLoop 0 s of
                  Inl e \<Rightarrow> Inl (NumError ''Atoi'' s0 e)
                | Inr un \<Rightarrow>
                    if \<not> neg \<and> un \<ge> 2 ^ 63 then Inl (NumError ''Atoi'' s0 ErrRange)
                    else if neg \<and> un > 2 ^ 63 then Inl (NumError ''Atoi'' s0 ErrRange)
                    else Inr (if neg then - int un else int un))"

text \<open>\<open>strings.TrimPrefix\<close> and \<open>strings.ToLower\<close> (on ASCII letters).\<close>

definition TrimPrefix :: "string \<Rightarrow> string \<Rightarrow> string" where
  "TrimPrefix s p = (if take (length p) s = p then drop (length p) s else s)"

definition lowerChar :: "char \<Rightarrow> char" where
  "lowerChar c =
     (case map_of (zip ''ABCDEFGHIJKLMNOPQRSTUVWXYZ'' ''abcdefghijklmnopqrstuvwxyz'') c of
        Some l \<Rightarrow> l
      | None \<Rightarrow> c)"

section \<open>Byte sizes: \<open>units.FromHumanSize\<close>\<close>

text \<open>
  \<open>github.com/docker/go-units\<close> is a dependency of the package, not part of it. Its
  \<open>FromHumanSize\<close> is \<open>parseSize\<close> with the decimal (SI) multipliers, \<open>RAMInBytes\<close> is the
  same function with the binary ones. The model covers a part of it only:
  \<^item> the numeric part is read by \<open>strconv.ParseFloat\<close>; the model reads unsigned plain
    decimals (\<open>12\<close>, \<open>1.5\<close>) as an exact fraction (mantissa, number of fractional
    digits) and answers every other spelling with a syntax error, also where Go
    accepts it (\<open>1e3\<close> is 1000 in Go) or answers differently (\<open>-1 GiB\<close> is
    \<open>invalid size\<close> in Go);
  \<^item> the product with the multiplier is exact here, where Go multiplies in \<open>float64\<close>
    and truncates to \<open>int64\<close>: for \<open>4.1 GiB\<close> the model gives 4100000000 and Go
    4099999999, and values beyond \<open>int64\<close> differ too.
  Model and library agree wherever the decimal and the product are representable in
  \<open>float64\<close> and within \<open>int64\<close>, as for \<open>1.5\<close> and \<open>1.5e9\<close>. Nothing below uses the
  model at another size than \<open>1.5 GiB\<close>.
\<close>

definition decimalMap :: "char \<Rightarrow> nat option" where
  "decimalMap c =
     (if c = CHR ''k'' then Some 1000
      else if c = CHR ''m'' then Some (1000 ^ 2)
      else if c = CHR ''g'' then Some (1000 ^ 3)
      else if c = CHR ''t'' then Some (1000 ^ 4)
      else if c = CHR ''p'' then Some (1000 ^ 5)
      else None)"

definition binaryMap :: "char \<Rightarrow> nat option" where
  "binaryMap c =
     (if c = CHR ''k'' then Some 1024
      else if c = CHR ''m'' then Some (1024 ^ 2)
      else if c = CHR ''g'' then Some (1024 ^ 3)
      else if c = CHR ''t'' then Some (1024 ^ 4)
      else if c = CHR ''p'' then Some (1024 ^ 5)
      else None)"

fun digitsValue :: "nat \<Rightarrow> string \<Rightarrow> nat" where
  "digitsValue n [] = n"
| "digitsValue n (c # cs) = digitsValue (n * 10 + digitVal c) cs"

definition ParseFloat :: "string \<Rightarrow> error + (nat \<times> nat)" where
  "ParseFloat num =
     (let ip = takeWhile isDigit num; rest = dropWhile isDigit num
      in if rest = [] then
           (if ip = [] then Inl (NumError ''ParseFloat'' num ErrSyntax)
            else Inr (digitsValue 0 ip, 0))
         else if hd rest = CHR ''.'' \<and> list_all isDigit (tl rest) \<and> ip @ tl rest \<noteq> [] then
           Inr (digitsValue 0 (ip @ tl rest), length (tl rest))
         else Inl (NumError ''ParseFloat'' num ErrSyntax))"

text \<open>\<open>strings.LastIndexAny(s, "01234567890. ")\<close>; \<open>None\<close> is Go's \<open>-1\<close>.\<close>

fun lastIndexNum :: "string \<Rightarrow> nat option" where
  "lastIndexNum [] = None"
| "lastIndexNum (c # cs) =
     (case lastIndexNum cs of
        Some i \<Rightarrow> Some (Suc i)
      | None \<Rightarrow> if isDigit c \<or> c = CHR ''.'' \<or> c = CHR '' '' then Some 0 else None)"

definition parseSize :: "string \<Rightarrow> (char \<Rightarrow> nat option) \<Rightarrow> error + int" where
  "parseSize sizeStr uMap =
     (case lastIndexNum sizeStr of
        None \<Rightarrow> Inl (Errorf (''invalid size: '' @ [CHR 0x27] @ sizeStr @ [CHR 0x27]))
      | Some sep \<Rightarrow>
          (let num = (if sizeStr ! sep \<noteq> CHR '' '' then take (sep + 1) sizeStr else take sep sizeStr);
               sfx = drop (sep + 1) sizeStr
           in (case ParseFloat num of
                 Inl e \<Rightarrow> Inl e
               | Inr (mant, frac) \<Rightarrow>
                  (if sfx = [] then Inr (int (mant div 10 ^ frac))
                   else if length sfx > 3 then
                     Inl (Errorf (''invalid suffix: '' @ [CHR 0x27] @ sfx @ [CHR 0x27]))
                   else
                     (let sfx = map lowerChar sfx;
                          bad = Inl (Errorf (''invalid suffix: '' @ [CHR 0x27] @ sfx @ [CHR 0x27]))
                      in if hd sfx = CHR ''b'' then
                           (if length sfx > 1 then bad else Inr (int (mant div 10 ^ frac)))
                         else (case uMap (hd sfx) of
                                 None \<Rightarrow> bad
                               | Some mul \<Rightarrow>
                                  (if length sfx = 2 \<and> sfx ! 1 \<noteq> CHR ''b'' then bad
                                   else if length sfx = 3 \<and> drop 1 sfx \<noteq> ''ib'' then bad
                                   else Inr (int ((mant * mul) div 10 ^ frac)))))))))"

definition FromHumanSize :: "string \<Rightarrow> error + int" where
  "FromHumanSize size' = parseSize size' decimalMap"

definition RAMInBytes :: "string \<Rightarrow> error + int" where
  "RAMInBytes size' = parseSize size' binaryMap"

section \<open>The data model\<close>

text \<open>
  \<open>Media\<close> is declared outside the files at hand; its fields and their types are read
  off the assignments of the row extractor (\<open>hrefToID\<close> returns \<open>uint\<close>, \<open>Size\<close> receives
  a \<open>uint64\<close>, the counts a \<open>uint\<close>). \<open>Date\<close> is a \<open>time.Time\<close>, kept as its Unix seconds.
\<close>

type_synonym Category = string

record Media =
  ID :: uint
  Name :: string
  Category :: Category
  Torrent :: string
  Magnet :: string
  Size :: uint64
  Seeders :: uint
  Leechers :: uint
  Downloads :: uint
  Date :: int
  CommentCount :: uint

text \<open>
  The zero value \<open>Media{}\<close>. The zero \<open>time.Time\<close> is 1 January of year 1, which is
  \<open>-62135596800\<close> in Unix seconds.
\<close>

definition zeroMedia :: Media where
  "zeroMedia = \<lparr>ID = 0, Name = [], Category = [], Torrent = [], Magnet = [], Size = 0,
                Seeders = 0, Leechers = 0, Downloads = 0, Date = - 62135596800, CommentCount = 0\<rparr>"

text \<open>\<open>html.Node\<close>: its type, data, attributes and children; siblings are the list order.\<close>

datatype NodeType = ErrorNode | TextNode | DocumentNode | ElementNode | CommentNode | DoctypeNode | RawNode

datatype Node = Node (Type: NodeType) (Data: string) (Attr: "(string \<times> string) list") (Children: "Node list")

definition FirstChild :: "Node \<Rightarrow> Node option" where
  "FirstChild n = (case Children n of [] \<Rightarrow> None | c # _ \<Rightarrow> Some c)"

definition LastChild :: "Node \<Rightarrow> Node option" where
  "LastChild n = (if Children n = [] then None else Some (last (Children n)))"

text \<open>
  A \<open>goquery.Selection\<close> is used only through \<open>Find(selector).Nodes\<close>: a row is the
  function from a selector to the nodes the query library returns for it.
\<close>

type_synonym Selection = "string \<Rightarrow> Node list"

definition Find :: "Selection \<Rightarrow> string \<Rightarrow> Node list" where
  "Find elem selector = elem selector"

section \<open>The row extractor\<close>

fun attrLookup :: "(string \<times> string) list \<Rightarrow> string \<Rightarrow> string \<times> bool" where
  "attrLookup [] key = ([], False)"
| "attrLookup ((k, v) # as) key = (if k = key then (v, True) else attrLookup as key)"

definition getAttributeValueByKey :: "Node \<Rightarrow> string \<Rightarrow> string \<times> bool" where
  "getAttributeValueByKey node key = attrLookup (Attr node) key"

definition hrefToCategory :: "string \<Rightarrow> Category" where
  "hrefToCategory href = TrimPrefix href ''/?c=''"

definition hrefToID :: "string \<Rightarrow> error + uint" where
  "hrefToID href =
     (case Atoi (TrimPrefix href ''/view/'') of
        Inl err \<Rightarrow> Inl err
      | Inr id' \<Rightarrow> Inr (word_of_int id'))"

text \<open>
  The four sub-steps write through a \<open>*Media\<close> and return an \<open>error\<close>: the model returns
  the record as the step left it together with the error (\<open>None\<close> is \<open>nil\<close>).
\<close>

definition parseMediaElementLinks :: "Node list \<Rightarrow> Media \<Rightarrow> Media \<times> error option" where
  "parseMediaElementLinks links media =
     (if length links \<noteq> 4 then
        (media, Some (Errorf (''unexpected layout: expected 4 links, got '' @ FormatInt (int (length links)))))
      else
        let (href, ok) = getAttributeValueByKey (links ! 0) ''href''
        in if \<not> ok then (media, Some (New ''unexpected layout: first link does not have an href''))
        else
          let media = media\<lparr>Category := hrefToCategory href\<rparr>;
              (href, ok) = getAttributeValueByKey (links ! 1) ''href''
          in if \<not> ok then (media, Some (New ''unexpected layout: second link does not have an href''))
          else (case hrefToID href of
            Inl err \<Rightarrow> (media, Some (Wrap err ''error parsing ID''))
          | Inr id' \<Rightarrow>
              let media = media\<lparr>ID := id'\<rparr>;
                  (title, ok) = getAttributeValueByKey (links ! 1) ''title''
              in if \<not> ok then (media, Some (New ''unexpected layout: second link does not have a title''))
              else
                let media = media\<lparr>Name := title\<rparr>;
                    (href, ok) = getAttributeValueByKey (links ! 2) ''href''
                in if \<not> ok then (media, Some (New ''unexpected layout: third link does not have an href''))
                else
                  let media = media\<lparr>Torrent := href\<rparr>;
                      (href, ok) = getAttributeValueByKey (links ! 3) ''href''
                  in if \<not> ok then (media, Some (New ''unexpected layout: fourth link does not have an href''))
                  else (media\<lparr>Magnet := href\<rparr>, None)))"

text \<open>\<open>n.FirstChild == nil || n.FirstChild.Type != html.TextNode\<close>, and its data otherwise.\<close>

definition textOf :: "Node option \<Rightarrow> string option" where
  "textOf child = (case child of None \<Rightarrow> None
                   | Some c \<Rightarrow> if Type c \<noteq> TextNode then None else Some (Data c))"

definition parseMediaElementTexts :: "Node list \<Rightarrow> Media \<Rightarrow> Media \<times> error option" where
  "parseMediaElementTexts nodes media =
     (if length nodes \<noteq> 8 then
        (media, Some (Errorf (''unexpected layout: expected 8 nodes, got '' @ FormatInt (int (length nodes)))))
      else (case textOf (FirstChild (nodes ! 3)) of
        None \<Rightarrow> (media, Some (New ''unexpected layout: expected node 4 to have a text first child''))
      | Some sizeText \<Rightarrow>
     (case FromHumanSize sizeText of
        Inl err \<Rightarrow> (media, Some (Wrap err ''error parsing size''))
      | Inr size' \<Rightarrow>
      let media = media\<lparr>Size := word_of_int size'\<rparr>
      in (case textOf (FirstChild (nodes ! 5)) of
        None \<Rightarrow> (media, Some (New ''unexpected layout: expected node 6 to have a text first child''))
      | Some seText \<Rightarrow>
     (case Atoi seText of
        Inl err \<Rightarrow> (media, Some (Wrap err ''error parsing se''))
      | Inr seeders \<Rightarrow>
      let media = media\<lparr>Seeders := word_of_int seeders\<rparr>
      in (case textOf (FirstChild (nodes ! 6)) of
        None \<Rightarrow> (media, Some (New ''unexpected layout: expected node 7 to have a text first child''))
      | Some leText \<Rightarrow>
     (case Atoi leText of
        Inl err \<Rightarrow> (media, Some (Wrap err ''error parsing leechers''))
      | Inr leechers \<Rightarrow>
      let media = media\<lparr>Leechers := word_of_int leechers\<rparr>
      in (case textOf (FirstChild (nodes ! 7)) of
        None \<Rightarrow> (media, Some (New ''unexpected layout: expected node 8 to have a text first child''))
      | Some dlText \<Rightarrow>
     (case Atoi dlText of
        Inl err \<Rightarrow> (media, Some (Wrap err ''error parsing downloads''))
      | Inr downloads \<Rightarrow> (media\<lparr>Downloads := word_of_int downloads\<rparr>, None))))))))))"

text \<open>
  \<open>parseMediaElementTimestamp\<close> reads \<open>nodes[4]\<close> without a length check of its own: it
  is called only after \<open>parseMediaElementTexts\<close> accepted eight nodes. A shorter slice
  would panic; the model returns \<open>None\<close> there.
\<close>

definition parseMediaElementTimestamp :: "Node list \<Rightarrow> Media \<Rightarrow> (Media \<times> error option) option" where
  "parseMediaElementTimestamp nodes media =
     (if length nodes \<le> 4 then None
      else
        let (timestamp, ok) = getAttributeValueByKey (nodes ! 4) ''data-timestamp''
        in if \<not> ok then Some (media, Some (New ''unexpected layout: expected node 5 to have a data-timestamp''))
        else (case Atoi timestamp of
          Inl err \<Rightarrow> Some (media, Some (Wrap err ''error parsing timestamp''))
        | Inr timestampInt \<Rightarrow> Some (media\<lparr>Date := timestampInt\<rparr>, None)))"

definition parseMediaElementCommentCount :: "Selection \<Rightarrow> Media \<Rightarrow> Media \<times> error option" where
  "parseMediaElementCommentCount elem media =
     (let nodes = Find elem ''.comments''
      in if length nodes = 0 then (media, None)
         else if length nodes > 1 then (media, Some (New ''found more than one comments element''))
         else (case textOf (LastChild (nodes ! 0)) of
           None \<Rightarrow> (media, Some (New ''unexpected layout: expected comments elem to have a text last child''))
         | Some text' \<Rightarrow>
          (case Atoi text' of
             Inl err \<Rightarrow> (media, Some (Wrap err ''error parsing comment count''))
           | Inr commentCount \<Rightarrow> (media\<lparr>CommentCount := word_of_int commentCount\<rparr>, None))))"

text \<open>
  \<open>parseMediaElement\<close> returns \<open>(media, err)\<close>: beside a non-nil error stands the record
  as far as it was filled. \<open>None\<close> is the panic of an index out of range, which the
  length check of the second step excludes.
\<close>

definition parseMediaElement :: "Selection \<Rightarrow> (Media \<times> error option) option" where
  "parseMediaElement elem =
     (let media = zeroMedia;
          links = Find elem ''td a:not(.comments)''
      in (case parseMediaElementLinks links media of
        (media, Some err) \<Rightarrow> Some (media, Some err)
      | (media, None) \<Rightarrow>
      let nodes = Find elem ''td''
      in (case parseMediaElementTexts nodes media of
        (media, Some err) \<Rightarrow> Some (media, Some err)
      | (media, None) \<Rightarrow>
     (case parseMediaElementTimestamp nodes media of
        None \<Rightarrow> None
      | Some (media, Some err) \<Rightarrow> Some (media, Some err)
      | Some (media, None) \<Rightarrow>
     (case parseMediaElementCommentCount elem media of
        (media, Some err) \<Rightarrow> Some (media, Some err)
      | (media, None) \<Rightarrow> Some (media, None))))))"

section \<open>The page parser: two goroutines and a select\<close>

text \<open>
  \<open>parseSearchPageHTML\<close> allocates \<open>medias\<close>, sets a \<open>sync.WaitGroup\<close> to the number of
  rows and starts two goroutines: one waits for the group and then sends on \<open>doneChan\<close>,
  the other walks the rows with \<open>selection.Each\<close>. The caller blocks in a \<open>select\<close> on
  \<open>errChan\<close> and \<open>doneChan\<close>. Both channels are unbuffered, so a send completes only
  together with the caller's receive.

  The state holds the slice, the counter of the group and where each of the three
  threads stands. The row goroutine is at row \<open>i\<close> (\<open>WAt i\<close>; \<open>i\<close> the number of rows when
  \<open>Each\<close> is over), has stored \<open>medias[i]\<close> and is about to call \<open>group.Done()\<close>
  (\<open>WDone i\<close>), or is blocked sending the error of row \<open>i\<close> (\<open>WSend i err\<close>); after the
  send the callback returns and \<open>Each\<close> goes on with row \<open>i + 1\<close>. \<open>WPanic\<close> is a panic
  in the extraction, which ends the program.
\<close>

datatype worker = WAt nat | WDone nat | WSend nat error | WPanic

datatype waiter = WWait | WSendDone | WExit

datatype caller = MSelect | MReturned "error + Media list"

record pstate =
  medias :: "Media list"
  group :: int
  workerG :: worker
  waiterG :: waiter
  mainG :: caller

text \<open>
  What the scheduler can pick: a step of the row goroutine, a step of the waiting
  goroutine, or one of the two cases of the caller's \<open>select\<close>.
\<close>

datatype tid = Worker | Waiter | MainErr | MainDone

definition init :: "Selection list \<Rightarrow> pstate" where
  "init selection =
     \<lparr>medias = replicate (length selection) zeroMedia,
      group = int (length selection),
      workerG = WAt 0, waiterG = WWait, mainG = MSelect\<rparr>"

fun step :: "Selection list \<Rightarrow> tid \<Rightarrow> pstate \<Rightarrow> pstate option" where
  "step selection Worker s =
     (case workerG s of
        WAt i \<Rightarrow>
          (if i < length selection then
             (case parseMediaElement (selection ! i) of
                None \<Rightarrow> Some (s\<lparr>workerG := WPanic\<rparr>)
              | Some (media, Some err) \<Rightarrow>
                  Some (s\<lparr>workerG := WSend i (Wrap err ''error parsing media element'')\<rparr>)
              | Some (media, None) \<Rightarrow>
                  Some (s\<lparr>medias := (medias s)[i := media], workerG := WDone i\<rparr>))
           else None)
      | WDone i \<Rightarrow> Some (s\<lparr>group := group s - 1, workerG := WAt (i + 1)\<rparr>)
      | WSend i err \<Rightarrow> None
      | WPanic \<Rightarrow> None)"
| "step selection Waiter s =
     (if workerG s = WPanic then None
      else (case waiterG s of
              WWait \<Rightarrow> (if group s = 0 then Some (s\<lparr>waiterG := WSendDone\<rparr>) else None)
            | WSendDone \<Rightarrow> None
            | WExit \<Rightarrow> None))"
| "step selection MainErr s =
     (if mainG s \<noteq> MSelect then None
      else (case workerG s of
              WSend i err \<Rightarrow> Some (s\<lparr>mainG := MReturned (Inl err), workerG := WAt (i + 1)\<rparr>)
            | WAt i \<Rightarrow> None
            | WDone i \<Rightarrow> None
            | WPanic \<Rightarrow> None))"
| "step selection MainDone s =
     (if mainG s \<noteq> MSelect \<or> workerG s = WPanic then None
      else (case waiterG s of
              WSendDone \<Rightarrow> Some (s\<lparr>mainG := MReturned (Inr (medias s)), waiterG := WExit\<rparr>)
            | WWait \<Rightarrow> None
            | WExit \<Rightarrow> None))"

text \<open>
  A schedule is the list of the scheduler's picks; a pick that is blocked (or whose
  thread is over) leaves the state as it is. \<open>effective\<close> counts the picks that ran.
\<close>

fun exec :: "Selection list \<Rightarrow> tid list \<Rightarrow> pstate \<Rightarrow> pstate" where
  "exec selection [] s = s"
| "exec selection (t # ts) s =
     (case step selection t s of
        None \<Rightarrow> exec selection ts s
      | Some s' \<Rightarrow> exec selection ts s')"

fun effective :: "Selection list \<Rightarrow> tid list \<Rightarrow> pstate \<Rightarrow> nat" where
  "effective selection [] s = 0"
| "effective selection (t # ts) s =
     (case step selection t s of
        None \<Rightarrow> effective selection ts s
      | Some s' \<Rightarrow> Suc (effective selection ts s'))"

text \<open>
  A document is used only through \<open>doc.Find(selector)\<close> followed by \<open>Each\<close>: it is the
  function from a selector to the rows it selects, in document order.
  \<open>parseSearchPageHTML\<close> under a schedule is what the caller has returned when the
  schedule is used up, \<open>None\<close> while it still waits in the \<open>select\<close>.
\<close>

type_synonym Document = "string \<Rightarrow> Selection list"

definition parseSearchPageHTML :: "tid list \<Rightarrow> Document \<Rightarrow> (error + Media list) option" where
  "parseSearchPageHTML sched doc =
     (let selection = doc ''.torrent-list tbody tr''
      in case mainG (exec selection sched (init selection)) of
           MSelect \<Rightarrow> None
         | MReturned r \<Rightarrow> Some r)"

text \<open>
  The caller never hangs: under every schedule, as long as the caller has not returned
  some pick can run, and no schedule runs more than \<open>2 * N + 3\<close> picks. Every run of
  the scheduler therefore ends, and it ends with the caller returned.
\<close>

definition neverHangs :: "Document \<Rightarrow> bool" where
  "neverHangs doc =
     (let selection = doc ''.torrent-list tbody tr''
      in \<forall>sched.
           (mainG (exec selection sched (init selection)) = MSelect \<longrightarrow>
              (\<exists>t. step selection t (exec selection sched (init selection)) \<noteq> None)) \<and>
           effective selection sched (init selection) \<le> 2 * length selection + 3)"

section \<open>The query builder\<close>

text \<open>
  \<open>net/url\<close> belongs to Go's standard library. \<open>PathEscape\<close> and \<open>QueryEscape\<close> are
  \<open>escape\<close> with the modes \<open>encodePathSegment\<close> and \<open>encodeQueryComponent\<close>: letters,
  digits and \<open>-_.~\<close> stay, a space in a query component becomes \<open>+\<close>, every other
  byte that must be escaped becomes \<open>%XX\<close>.
\<close>

datatype encoding = encodePathSegment | encodeQueryComponent

definition isAlnum :: "char \<Rightarrow> bool" where
  "isAlnum c =
     (let n = (of_char c :: nat)
      in (97 \<le> n \<and> n \<le> 122) \<or> (65 \<le> n \<and> n \<le> 90) \<or> (48 \<le> n \<and> n \<le> 57))"

definition shouldEscape :: "char \<Rightarrow> encoding \<Rightarrow> bool" where
  "shouldEscape c mode =
     (if isAlnum c then False
      else if c \<in> set ''-_.~'' then False
      else if c \<in> set ''$&+,/:;=?@'' then
        (case mode of
           encodePathSegment \<Rightarrow> c = CHR ''/'' \<or> c = CHR '';'' \<or> c = CHR '','' \<or> c = CHR ''?''
         | encodeQueryComponent \<Rightarrow> True)
      else True)"

definition upperhex :: string where
  "upperhex = ''0123456789ABCDEF''"

fun escape :: "string \<Rightarrow> encoding \<Rightarrow> string" where
  "escape [] mode = []"
| "escape (c # cs) mode =
     (if shouldEscape c mode then
        (if c = CHR '' '' \<and> mode = encodeQueryComponent then [CHR ''+'']
         else [CHR ''%'', upperhex ! ((of_char c :: nat) div 16), upperhex ! ((of_char c :: nat) mod 16)])
      else [c]) @ escape cs mode"

definition PathEscape :: "string \<Rightarrow> string" where
  "PathEscape s = escape s encodePathSegment"

definition QueryEscape :: "string \<Rightarrow> string" where
  "QueryEscape s = escape s encodeQueryComponent"

text \<open>
  \<open>url.Values\<close> is a map from a key to its values; \<open>Set\<close> replaces the values of a key,
  \<open>Encode\<close> writes \<open>key=value\<close> pairs joined by \<open>&\<close>, the keys sorted as Go compares
  strings (byte by byte).
\<close>

type_synonym Values = "(string \<times> string list) list"

definition Set :: "Values \<Rightarrow> string \<Rightarrow> string \<Rightarrow> Values" where
  "Set v key value = (key, [value]) # filter (\<lambda>kv. fst kv \<noteq> key) v"

fun strLess :: "string \<Rightarrow> string \<Rightarrow> bool" where
  "strLess [] [] = False"
| "strLess [] (y # ys) = True"
| "strLess (x # xs) [] = False"
| "strLess (x # xs) (y # ys) =
     ((of_char x :: nat) < of_char y \<or> (x = y \<and> strLess xs ys))"

fun insertKey :: "string \<Rightarrow> string list \<Rightarrow> string list" where
  "insertKey k [] = [k]"
| "insertKey k (x # xs) = (if strLess x k then x # insertKey k xs else k # x # xs)"

fun sortKeys :: "string list \<Rightarrow> string list" where
  "sortKeys [] = []"
| "sortKeys (k # ks) = insertKey k (sortKeys ks)"

fun valuesOf :: "Values \<Rightarrow> string \<Rightarrow> string list" where
  "valuesOf [] key = []"
| "valuesOf ((k, vs) # rest) key = (if k = key then vs else valuesOf rest key)"

fun joinAmp :: "string list \<Rightarrow> string" where
  "joinAmp [] = []"
| "joinAmp [x] = x"
| "joinAmp (x # y # ys) = x @ ''&'' @ joinAmp (y # ys)"

definition Encode :: "Values \<Rightarrow> string" where
  "Encode v =
     joinAmp (concat (map (\<lambda>k. map (\<lambda>val. QueryEscape k @ ''='' @ QueryEscape val) (valuesOf v k))
                          (sortKeys (map fst v))))"

text \<open>
  \<open>url.URL\<close> with the fields the builder touches. \<open>url.Parse\<close> is modelled on the
  absolute URLs \<open>scheme://host/path?query\<close> written with printable ASCII and without
  user information, escapes, brackets or fragment; the model refuses every other
  input, some of which Go accepts. The only URL the builder parses is the constant
  \<open>NyaaURL\<close>.
\<close>

record URL =
  Scheme :: string
  Host :: string
  Path :: string
  RawQuery :: string

definition isAlpha :: "char \<Rightarrow> bool" where
  "isAlpha c =
     (let n = (of_char c :: nat) in (97 \<le> n \<and> n \<le> 122) \<or> (65 \<le> n \<and> n \<le> 90))"

definition plainURLChar :: "char \<Rightarrow> bool" where
  "plainURLChar c = (32 < (of_char c :: nat) \<and> (of_char c :: nat) < 127 \<and> c \<notin> set ''#@%[]'')"

definition url_Parse :: "string \<Rightarrow> error + URL" where
  "url_Parse rawURL =
     (let scheme = takeWhile (\<lambda>c. c \<noteq> CHR '':'') rawURL;
          rest = drop (length scheme + 1) rawURL;
          beforeQuery = takeWhile (\<lambda>c. c \<noteq> CHR ''?'') rest;
          query = drop (length beforeQuery + 1) rest;
          authority = takeWhile (\<lambda>c. c \<noteq> CHR ''/'') (drop 2 beforeQuery);
          path = dropWhile (\<lambda>c. c \<noteq> CHR ''/'') (drop 2 beforeQuery)
      in if \<not> list_all plainURLChar rawURL \<or> length scheme = length rawURL \<or> scheme = []
            \<or> \<not> isAlpha (hd scheme)
            \<or> \<not> list_all (\<lambda>c. isAlnum c \<or> c \<in> set ''+-.'') scheme
            \<or> take 2 beforeQuery \<noteq> ''//''
         then Inl (Errorf (''parse '' @ rawURL @ '': outside the modelled URLs''))
         else Inr \<lparr>Scheme = map lowerChar scheme, Host = authority, Path = path, RawQuery = query\<rparr>)"

text \<open>
  \<open>URL.Query()\<close> parses \<open>RawQuery\<close> and drops the pairs it cannot read. Without
  escapes in the URL, a pair is \<open>key=value\<close> with \<open>+\<close> standing for a space; a pair
  with a semicolon is dropped.
\<close>

fun splitOn :: "char \<Rightarrow> string \<Rightarrow> string list" where
  "splitOn sep [] = [[]]"
| "splitOn sep (c # cs) =
     (if c = sep then [] # splitOn sep cs
      else (case splitOn sep cs of [] \<Rightarrow> [[c]] | x # xs \<Rightarrow> (c # x) # xs))"

definition plusToSpace :: "string \<Rightarrow> string" where
  "plusToSpace s = map (\<lambda>c. if c = CHR ''+'' then CHR '' '' else c) s"

fun addValue :: "Values \<Rightarrow> string \<Rightarrow> string \<Rightarrow> Values" where
  "addValue [] key value = [(key, [value])]"
| "addValue ((k, vs) # rest) key value =
     (if k = key then (k, vs @ [value]) # rest else (k, vs) # addValue rest key value)"

fun parseQuery :: "Values \<Rightarrow> string list \<Rightarrow> Values" where
  "parseQuery m [] = m"
| "parseQuery m (pair # pairs) =
     (if CHR '';'' \<in> set pair \<or> pair = [] then parseQuery m pairs
      else
        let key = takeWhile (\<lambda>c. c \<noteq> CHR ''='') pair;
            value = drop (length key + 1) pair
        in parseQuery (addValue m (plusToSpace key) (plusToSpace value)) pairs)"

definition Query :: "URL \<Rightarrow> Values" where
  "Query u = parseQuery [] (splitOn (CHR ''&'') (RawQuery u))"

text \<open>\<open>URL.String()\<close> for a URL with a scheme and a host.\<close>

definition URL_String :: "URL \<Rightarrow> string" where
  "URL_String u =
     Scheme u @ '':'' @ ''//'' @ Host u
       @ (if Path u \<noteq> [] \<and> hd (Path u) \<noteq> CHR ''/'' \<and> Host u \<noteq> [] then ''/'' else [])
       @ Path u
       @ (if RawQuery u \<noteq> [] then ''?'' @ RawQuery u else [])"

text \<open>
  \<open>SearchParameters\<close> is declared outside the files at hand. Its fields are read off
  \<open>urlForParams\<close>: \<open>Filter\<close> converts to \<open>int64\<close>, the others to \<open>string\<close>. The field
  \<open>Category\<close> is called \<open>ParamCategory\<close> here, \<open>Media\<close> having a field of that name.
\<close>

record SearchParameters =
  Filter :: int
  ParamCategory :: string
  SortBy :: string
  SortOrder :: string
  User :: string

definition zeroSearchParameters :: SearchParameters where
  "zeroSearchParameters = \<lparr>Filter = 0, ParamCategory = [], SortBy = [], SortOrder = [], User = []\<rparr>"

definition NyaaURL :: string where
  "NyaaURL = ''https://nyaa.si''"

definition urlForParams :: "string \<Rightarrow> SearchParameters \<Rightarrow> error + string" where
  "urlForParams search parameters =
     (let baseURL = NyaaURL;
          baseURL = (if User parameters \<noteq> [] then baseURL @ ''/user/'' @ PathEscape (User parameters)
                     else baseURL)
      in case url_Parse NyaaURL of
           Inl err \<Rightarrow> Inl (Wrap err ''error parsing nyaa url'')
         | Inr URL \<Rightarrow>
             (let query = Query URL;
                  query = Set query ''f'' (FormatInt (Filter parameters));
                  query = Set query ''c'' (ParamCategory parameters);
                  query = Set query ''q'' search;
                  query = Set query ''s'' (SortBy parameters);
                  query = Set query ''o'' (SortOrder parameters);
                  URL = URL\<lparr>RawQuery := Encode query\<rparr>
              in Inr (URL_String URL)))"

text \<open>\<open>strings.Contains\<close>.\<close>

fun Contains :: "string \<Rightarrow> string \<Rightarrow> bool" where
  "Contains [] substr = (substr = [])"
| "Contains (c # cs) substr = (take (length substr) (c # cs) = substr \<or> Contains cs substr)"

section \<open>The orchestrator\<close>

text \<open>
  The network and the HTML parser are outside the package. A world says how they
  answer and records, in order, what the package asked of them: the request of a
  URL, the closing of a response body (the deferred \<open>rep.Body.Close()\<close>), the parsing
  of a body into a document.
\<close>

record Response =
  StatusCode :: int
  Status :: string
  Body :: string

datatype event = HTTPGet string | CloseBody | ParseHTML string

record World =
  httpGet :: "string \<Rightarrow> error + Response"
  newDocumentFromReader :: "string \<Rightarrow> error + Document"
  trace :: "event list"

definition getOneParameterSet :: "SearchParameters list \<Rightarrow> error + SearchParameters" where
  "getOneParameterSet parameters =
     (let params = zeroSearchParameters;
          params = (if length parameters = 1 then parameters ! 0 else params)
      in if length parameters > 1 then Inl (New ''only one parameter set accepted'')
         else Inr params)"

definition requestHTML :: "string \<Rightarrow> SearchParameters \<Rightarrow> World \<Rightarrow> (error + Document) \<times> World" where
  "requestHTML search params w =
     (case urlForParams search params of
        Inl err \<Rightarrow> (Inl (Wrap err ''error creating url for search''), w)
      | Inr URL \<Rightarrow>
         (let w = w\<lparr>trace := trace w @ [HTTPGet URL]\<rparr>
          in case httpGet w URL of
               Inl err \<Rightarrow> (Inl (Wrap err ''error requesting results''), w)
             | Inr rep \<Rightarrow>
                (if StatusCode rep < 200 \<or> StatusCode rep \<ge> 300 then
                   (Inl (Errorf (''non-OK HTTP status code: '' @ FormatInt (StatusCode rep)
                                  @ '' '' @ Status rep)),
                    w\<lparr>trace := trace w @ [CloseBody]\<rparr>)
                 else
                   (let w = w\<lparr>trace := trace w @ [ParseHTML (Body rep)]\<rparr>
                    in case newDocumentFromReader w (Body rep) of
                         Inl err \<Rightarrow> (Inl (Wrap err ''error parsing response html''),
                                      w\<lparr>trace := trace w @ [CloseBody]\<rparr>)
                       | Inr doc \<Rightarrow> (Inr doc, w\<lparr>trace := trace w @ [CloseBody]\<rparr>)))))"

text \<open>
  \<open>Search\<close> under a schedule of the page parser's threads; \<open>None\<close> while the page
  parser has not returned.
\<close>

definition Search ::
  "tid list \<Rightarrow> string \<Rightarrow> SearchParameters list \<Rightarrow> World \<Rightarrow> (error + Media list) option \<times> World" where
  "Search sched search parameters w =
     (case getOneParameterSet parameters of
        Inl err \<Rightarrow> (Some (Inl err), w)
      | Inr params \<Rightarrow>
         (case requestHTML search params w of
            (Inl err, w) \<Rightarrow> (Some (Inl (Wrap err ''error getting the nyaa page'')), w)
          | (Inr doc, w) \<Rightarrow>
             (case parseSearchPageHTML sched doc of
                None \<Rightarrow> (None, w)
              | Some (Inl err) \<Rightarrow> (Some (Inl (Wrap err ''error parsing html'')), w)
              | Some (Inr medias') \<Rightarrow> (Some (Inr medias'), w))))"

section \<open>Auxiliary notions for the proofs\<close>

text \<open>
  What \<open>strconv.Atoi\<close> accepts, said directly: an optional sign, at least one decimal
  digit and nothing else, the value in \<open>[-2^63, 2^63)\<close>.
\<close>

definition signOf :: "string \<Rightarrow> string" where
  "signOf s = (if take 1 s = ''-'' \<or> take 1 s = ''+'' then take 1 s else [])"

definition digitsOf :: "string \<Rightarrow> string" where
  "digitsOf s = (if take 1 s = ''-'' \<or> take 1 s = ''+'' then drop 1 s else s)"

definition intOfDecimal :: "string \<Rightarrow> int option" where
  "intOfDecimal s =
     (let v = digitsValue 0 (digitsOf s)
      in if digitsOf s = [] \<or> \<not> list_all isDigit (digitsOf s) then None
         else if signOf s = ''-'' then (if v \<le> 2 ^ 63 then Some (- int v) else None)
         else (if v < 2 ^ 63 then Some (int v) else None))"

definition atoiErr :: "string \<Rightarrow> numerr" where
  "atoiErr ds = (if ds = [] then ErrSyntax
                 else case parseUintLoop 0 ds of Inl e \<Rightarrow> e | Inr un \<Rightarrow> ErrRange)"

text \<open>
  A measure of the work left in the page parser: every pick that runs makes it smaller.
\<close>

fun workerWeight :: "nat \<Rightarrow> worker \<Rightarrow> nat" where
  "workerWeight n (WAt i) = 2 * (n - i)"
| "workerWeight n (WDone i) = 2 * (n - Suc i) + 1"
| "workerWeight n (WSend i err) = 2 * (n - Suc i) + 1"
| "workerWeight n WPanic = 0"

fun waiterWeight :: "waiter \<Rightarrow> nat" where
  "waiterWeight WWait = 2"
| "waiterWeight WSendDone = 1"
| "waiterWeight WExit = 0"

fun callerWeight :: "caller \<Rightarrow> nat" where
  "callerWeight MSelect = 1"
| "callerWeight (MReturned r) = 0"

definition weight :: "Selection list \<Rightarrow> pstate \<Rightarrow> nat" where
  "weight selection s =
     workerWeight (length selection) (workerG s) + waiterWeight (waiterG s) + callerWeight (mainG s)"

text \<open>
  The invariant of the runs over a page whose rows are all valid, and the invariant of
  the runs over a page whose first malformed row is row \<open>k\<close> with the error \<open>err\<close>.
\<close>

definition allOK :: "Selection list \<Rightarrow> bool" where
  "allOK selection = (\<forall>i<length selection. \<exists>m. parseMediaElement (selection ! i) = Some (m, None))"

definition invOK :: "Selection list \<Rightarrow> pstate \<Rightarrow> bool" where
  "invOK selection s =
     (length (medias s) = length selection \<and>
      (case workerG s of
         WAt i \<Rightarrow> i \<le> length selection \<and> group s = int (length selection) - int i \<and>
                   (\<forall>j<i. parseMediaElement (selection ! j) = Some (medias s ! j, None))
       | WDone i \<Rightarrow> i < length selection \<and> group s = int (length selection) - int i \<and>
                   (\<forall>j<Suc i. parseMediaElement (selection ! j) = Some (medias s ! j, None))
       | WSend i err \<Rightarrow> False
       | WPanic \<Rightarrow> False) \<and>
      (case waiterG s of
         WWait \<Rightarrow> mainG s = MSelect
       | WSendDone \<Rightarrow> workerG s = WAt (length selection) \<and> mainG s = MSelect
       | WExit \<Rightarrow> workerG s = WAt (length selection) \<and> mainG s = MReturned (Inr (medias s))))"

definition firstFail :: "Selection list \<Rightarrow> nat \<Rightarrow> error \<Rightarrow> bool" where
  "firstFail selection k err =
     (k < length selection \<and>
      (\<exists>m. parseMediaElement (selection ! k) = Some (m, Some err)) \<and>
      (\<forall>j<k. \<exists>m. parseMediaElement (selection ! j) = Some (m, None)))"

definition invFail :: "Selection list \<Rightarrow> nat \<Rightarrow> error \<Rightarrow> pstate \<Rightarrow> bool" where
  "invFail selection k err s =
     (case mainG s of
        MReturned r \<Rightarrow> r = Inl (Wrap err ''error parsing media element'')
      | MSelect \<Rightarrow>
          waiterG s = WWait \<and>
          (case workerG s of
             WAt i \<Rightarrow> i \<le> k \<and> group s = int (length selection) - int i
           | WDone i \<Rightarrow> i < k \<and> group s = int (length selection) - int i
           | WSend i e \<Rightarrow> i = k \<and> e = Wrap err ''error parsing media element'' \<and>
                          group s = int (length selection) - int k
           | WPanic \<Rightarrow> False))"

section \<open>Sample rows, pages and worlds\<close>

definition anchor :: "(string \<times> string) list \<Rightarrow> Node" where
  "anchor attrs = Node ElementNode ''a'' attrs []"

definition textNode :: "string \<Rightarrow> Node" where
  "textNode s = Node TextNode s [] []"

definition cell :: "(string \<times> string) list \<Rightarrow> Node list \<Rightarrow> Node" where
  "cell attrs children = Node ElementNode ''td'' attrs children"

definition commentsLink :: "string \<Rightarrow> Node" where
  "commentsLink count =
     Node ElementNode ''a'' [(''href'', ''/view/123#comments''), (''class'', ''comments'')]
       [Node ElementNode ''i'' [(''class'', ''fa fa-comments-o'')] [], textNode count]"

definition linksWithView :: "string \<Rightarrow> Node list" where
  "linksWithView href =
     [anchor [(''href'', ''/?c=1_2'')],
      anchor [(''href'', href), (''title'', ''Foo'')],
      anchor [(''href'', ''/download/123.torrent'')],
      anchor [(''href'', ''magnet:?xt=urn'')]]"

definition goodLinks :: "Node list" where
  "goodLinks = linksWithView ''/view/123''"

definition goodCells :: "Node list" where
  "goodCells =
     [cell [] [], cell [] [], cell [] [],
      cell [] [textNode ''1.5 GiB''],
      cell [(''data-timestamp'', ''1600000000'')] [textNode ''2020-09-13 12:26''],
      cell [] [textNode ''10''], cell [] [textNode ''2''], cell [] [textNode ''345'']]"

definition mkRow :: "Node list \<Rightarrow> Node list \<Rightarrow> Node list \<Rightarrow> Selection" where
  "mkRow links cells comments selector =
     (if selector = ''td a:not(.comments)'' then links
      else if selector = ''td'' then cells
      else if selector = ''.comments'' then comments
      else [])"

definition goodRow :: Selection where
  "goodRow = mkRow goodLinks goodCells []"

definition goodMedia :: Media where
  "goodMedia = \<lparr>ID = 123, Name = ''Foo'', Category = ''1_2'', Torrent = ''/download/123.torrent'',
                Magnet = ''magnet:?xt=urn'', Size = 1500000000, Seeders = 10, Leechers = 2,
                Downloads = 345, Date = 1600000000, CommentCount = 0\<rparr>"

definition threeLinkRow :: Selection where
  "threeLinkRow = mkRow (take 3 goodLinks) goodCells []"

definition sevenCellRow :: Selection where
  "sevenCellRow = mkRow goodLinks (take 7 goodCells) []"

definition noHrefSevenCellRow :: Selection where
  "noHrefSevenCellRow = mkRow (anchor [] # tl goodLinks) (take 7 goodCells) []"

definition pageOf :: "Selection list \<Rightarrow> Document" where
  "pageOf rows selector = (if selector = ''.torrent-list tbody tr'' then rows else [])"

definition world404 :: World where
  "world404 =
     \<lparr>httpGet = (\<lambda>URL. Inr \<lparr>StatusCode = 404, Status = ''404 Not Found'', Body = ''<html></html>''\<rparr>),
      newDocumentFromReader = (\<lambda>body. Inr (pageOf [])),
      trace = []\<rparr>"

section \<open>Lemmas on the Go runtime functions\<close>

lemma digitsValue_ge: "n \<le> digitsValue n ds"
proof (induction ds arbitrary: n)
  case Nil
  then show ?case by simp
next
  case (Cons c cs)
  have "n \<le> n * 10 + digitVal c" by simp
  also have "\<dots> \<le> digitsValue (n * 10 + digitVal c) cs" by (rule Cons.IH)
  finally show ?case by simp
qed

lemma parseUintLoop_digits:
  "list_all isDigit ds \<Longrightarrow> n \<le> 2 ^ 64 - 1 \<Longrightarrow>
   parseUintLoop n ds = (if digitsValue n ds \<le> 2 ^ 64 - 1 then Inr (digitsValue n ds) else Inl ErrRange)"
proof (induction ds arbitrary: n)
  case Nil
  then show ?case by simp
next
  case (Cons c cs)
  from Cons.prems have c: "isDigit c" and cs: "list_all isDigit cs" by simp_all
  let ?n1 = "n * 10 + digitVal c"
  have ge: "?n1 \<le> digitsValue ?n1 cs" by (rule digitsValue_ge)
  show ?case
  proof (cases "n \<ge> (2 ^ 64 - 1) div 10 + 1")
    case True
    have "(2 ^ 64 - 1) div 10 + 1 = (1844674407370955162::nat)" by simp
    with True have "n \<ge> 1844674407370955162" by simp
    then have "n * 10 + digitVal c > 18446744073709551615" by linarith
    then have "?n1 > 2 ^ 64 - 1" by simp
    with ge have "\<not> digitsValue ?n1 cs \<le> 2 ^ 64 - 1" by linarith
    then show ?thesis using True c by simp
  next
    case False
    show ?thesis
    proof (cases "?n1 > 2 ^ 64 - 1")
      case True
      with ge have "\<not> digitsValue ?n1 cs \<le> 2 ^ 64 - 1" by linarith
      then show ?thesis using True False c by simp
    next
      case big: False
      then have "?n1 \<le> 2 ^ 64 - 1" by simp
      from Cons.IH [OF cs this] show ?thesis using False big c by simp
    qed
  qed
qed

lemma parseUintLoop_nondigit:
  "\<not> list_all isDigit ds \<Longrightarrow> \<exists>e. parseUintLoop n ds = Inl e"
  by (induction ds arbitrary: n) auto

lemma Atoi_digits:
  assumes "s = sign @ ds" and "sign = [] \<and> (ds = [] \<or> (hd ds \<noteq> CHR ''+'' \<and> hd ds \<noteq> CHR ''-'')) \<or> sign = ''+'' \<or> sign = ''-''"
  shows "Atoi s =
     (if ds = [] \<or> \<not> list_all isDigit ds then Inl (NumError ''Atoi'' s (atoiErr ds))
      else if sign = ''-'' then
        (if digitsValue 0 ds \<le> 2 ^ 63 then Inr (- int (digitsValue 0 ds))
         else Inl (NumError ''Atoi'' s ErrRange))
      else (if digitsValue 0 ds < 2 ^ 63 then Inr (int (digitsValue 0 ds))
            else Inl (NumError ''Atoi'' s ErrRange)))"
proof (cases "ds = []")
  case True
  with assms show ?thesis by (auto simp: Atoi_def atoiErr_def)
next
  case ne: False
  have strip: "(if hd s = CHR ''+'' \<or> hd s = CHR ''-'' then tl s else s) = ds"
    and neg: "(hd s = CHR ''-'') = (sign = ''-'')" and s: "s \<noteq> []"
    using assms ne by auto
  show ?thesis
  proof (cases "list_all isDigit ds")
    case True
    have "parseUintLoop 0 ds =
          (if digitsValue 0 ds \<le> 2 ^ 64 - 1 then Inr (digitsValue 0 ds) else Inl ErrRange)"
      by (rule parseUintLoop_digits [OF True]) simp
    then show ?thesis using True ne s strip neg
      by (simp add: Atoi_def Let_def)
  next
    case False
    from parseUintLoop_nondigit [OF False, of 0] obtain e where e: "parseUintLoop 0 ds = Inl e" by blast
    then show ?thesis using False ne s strip neg
      by (simp add: Atoi_def Let_def atoiErr_def)
  qed
qed

lemma Atoi_intOfDecimal:
  "Atoi s = (case intOfDecimal s of
               Some n \<Rightarrow> Inr n
             | None \<Rightarrow> Inl (NumError ''Atoi'' s
                         (if digitsOf s = [] \<or> \<not> list_all isDigit (digitsOf s) then atoiErr (digitsOf s) else ErrRange)))"
proof -
  have split: "s = signOf s @ digitsOf s"
    by (cases s) (auto simp: signOf_def digitsOf_def)
  have sign: "signOf s = [] \<and> (digitsOf s = [] \<or> (hd (digitsOf s) \<noteq> CHR ''+'' \<and> hd (digitsOf s) \<noteq> CHR ''-''))
              \<or> signOf s = ''+'' \<or> signOf s = ''-''"
    by (cases s) (auto simp: signOf_def digitsOf_def)
  show ?thesis
    by (subst Atoi_digits [OF split sign]) (simp add: intOfDecimal_def Let_def)
qed

lemma Atoi_Inr_iff: "Atoi s = Inr n \<longleftrightarrow> intOfDecimal s = Some n"
  by (simp add: Atoi_intOfDecimal split: option.splits)

lemma Atoi_Inl: "intOfDecimal s = None \<Longrightarrow> \<exists>e. Atoi s = Inl (NumError ''Atoi'' s e)"
  by (simp add: Atoi_intOfDecimal)

section \<open>Lemmas on the row extractor\<close>

lemma parseMediaElementTexts_length:
  "parseMediaElementTexts nodes media = (media', None) \<Longrightarrow> length nodes = 8"
  by (cases "length nodes = 8") (simp_all add: parseMediaElementTexts_def)

lemma parseMediaElementTimestamp_total:
  "length nodes = 8 \<Longrightarrow> parseMediaElementTimestamp nodes media \<noteq> None"
  by (simp add: parseMediaElementTimestamp_def split: prod.splits sum.splits)
lemma timestamp_after_texts:
  "parseMediaElementTexts nodes m = (m', None) \<Longrightarrow> parseMediaElementTimestamp nodes m'' = None \<Longrightarrow> False"
  using parseMediaElementTexts_length parseMediaElementTimestamp_total by blast

lemma parseMediaElement_total: "parseMediaElement elem \<noteq> None"
  by (auto simp: parseMediaElement_def Let_def split: prod.splits option.splits
           dest: timestamp_after_texts)

lemma links_count:
  "length links \<noteq> 4 \<Longrightarrow>
   parseMediaElementLinks links media =
     (media, Some (Errorf (''unexpected layout: expected 4 links, got '' @ FormatInt (int (length links)))))"
  by (simp add: parseMediaElementLinks_def)

lemma texts_count:
  "length nodes \<noteq> 8 \<Longrightarrow>
   parseMediaElementTexts nodes media =
     (media, Some (Errorf (''unexpected layout: expected 8 nodes, got '' @ FormatInt (int (length nodes)))))"
  by (simp add: parseMediaElementTexts_def)

lemma row_links_error:
  "parseMediaElementLinks (Find elem ''td a:not(.comments)'') zeroMedia = (m, Some err) \<Longrightarrow>
   parseMediaElement elem = Some (m, Some err)"
  by (simp add: parseMediaElement_def)

lemma row_texts_error:
  "parseMediaElementLinks (Find elem ''td a:not(.comments)'') zeroMedia = (m, None) \<Longrightarrow>
   parseMediaElementTexts (Find elem ''td'') m = (m', Some err) \<Longrightarrow>
   parseMediaElement elem = Some (m', Some err)"
  by (simp add: parseMediaElement_def)

lemma links_CommentCount:
  "CommentCount (fst (parseMediaElementLinks links media)) = CommentCount media"
  by (simp add: parseMediaElementLinks_def Let_def split: prod.splits sum.splits)

lemma texts_CommentCount:
  "CommentCount (fst (parseMediaElementTexts nodes media)) = CommentCount media"
  by (simp add: parseMediaElementTexts_def Let_def split: option.splits sum.splits)

lemma timestamp_CommentCount:
  "parseMediaElementTimestamp nodes media = Some (m, e) \<Longrightarrow> CommentCount m = CommentCount media"
  by (auto simp: parseMediaElementTimestamp_def Let_def split: prod.splits sum.splits if_splits)

lemma links_ID:
  assumes "length links = 4"
    and "getAttributeValueByKey (links ! 0) ''href'' = (h0, True)"
    and "getAttributeValueByKey (links ! 1) ''href'' = (href, True)"
  shows "parseMediaElementLinks links media =
     (case hrefToID href of
        Inl err \<Rightarrow> (media\<lparr>Category := hrefToCategory h0\<rparr>, Some (Wrap err ''error parsing ID''))
      | Inr id' \<Rightarrow>
          (let media = media\<lparr>Category := hrefToCategory h0, ID := id'\<rparr>;
               (title, ok) = getAttributeValueByKey (links ! 1) ''title''
           in if \<not> ok then (media, Some (New ''unexpected layout: second link does not have a title''))
              else
                let media = media\<lparr>Name := title\<rparr>;
                    (href, ok) = getAttributeValueByKey (links ! 2) ''href''
                in if \<not> ok then (media, Some (New ''unexpected layout: third link does not have an href''))
                else
                  let media = media\<lparr>Torrent := href\<rparr>;
                      (href, ok) = getAttributeValueByKey (links ! 3) ''href''
                  in if \<not> ok then (media, Some (New ''unexpected layout: fourth link does not have an href''))
                  else (media\<lparr>Magnet := href\<rparr>, None)))"
  using assms by (simp add: parseMediaElementLinks_def Let_def split: sum.splits)

lemma links_ID_ok:
  assumes "length links = 4"
    and "getAttributeValueByKey (links ! 0) ''href'' = (h0, True)"
    and "getAttributeValueByKey (links ! 1) ''href'' = (href, True)"
    and "hrefToID href = Inr id'"
  shows "ID (fst (parseMediaElementLinks links media)) = id'"
    and "snd (parseMediaElementLinks links media) \<noteq> Some (Wrap err ''error parsing ID'')"
  using assms(4) by (simp_all add: links_ID [OF assms(1-3)] Let_def split: prod.splits)

lemma hrefToID_intOfDecimal:
  "hrefToID href = (case intOfDecimal (TrimPrefix href ''/view/'') of
                      Some n \<Rightarrow> Inr (word_of_int n)
                    | None \<Rightarrow> Inl (NumError ''Atoi'' (TrimPrefix href ''/view/'')
                         (if digitsOf (TrimPrefix href ''/view/'') = [] \<or> \<not> list_all isDigit (digitsOf (TrimPrefix href ''/view/'')) then atoiErr (digitsOf (TrimPrefix href ''/view/'')) else ErrRange)))"
  by (simp add: hrefToID_def Atoi_intOfDecimal split: option.splits)

lemma row_cases:
  assumes "parseMediaElement elem = Some (m, e)"
  obtains
    (links) err where
      "parseMediaElementLinks (Find elem ''td a:not(.comments)'') zeroMedia = (m, Some err)"
      "e = Some err"
  | (texts) m1 err where
      "parseMediaElementLinks (Find elem ''td a:not(.comments)'') zeroMedia = (m1, None)"
      "parseMediaElementTexts (Find elem ''td'') m1 = (m, Some err)"
      "e = Some err"
  | (timestamp) m1 m2 err where
      "parseMediaElementLinks (Find elem ''td a:not(.comments)'') zeroMedia = (m1, None)"
      "parseMediaElementTexts (Find elem ''td'') m1 = (m2, None)"
      "parseMediaElementTimestamp (Find elem ''td'') m2 = Some (m, Some err)"
      "e = Some err"
  | (comments) m1 m2 m3 where
      "parseMediaElementLinks (Find elem ''td a:not(.comments)'') zeroMedia = (m1, None)"
      "parseMediaElementTexts (Find elem ''td'') m1 = (m2, None)"
      "parseMediaElementTimestamp (Find elem ''td'') m2 = Some (m3, None)"
      "parseMediaElementCommentCount elem m3 = (m, e)"
  using assms
  by (auto simp: parseMediaElement_def Let_def split: prod.splits option.splits)

lemma texts_ID: "ID (fst (parseMediaElementTexts nodes media)) = ID media"
  by (simp add: parseMediaElementTexts_def Let_def split: option.splits sum.splits)

lemma timestamp_ID:
  "parseMediaElementTimestamp nodes media = Some (m, e) \<Longrightarrow> ID m = ID media"
  by (auto simp: parseMediaElementTimestamp_def Let_def split: prod.splits sum.splits if_splits)

lemma comments_ID: "ID (fst (parseMediaElementCommentCount elem media)) = ID media"
  by (simp add: parseMediaElementCommentCount_def Let_def split: option.splits sum.splits)

lemma comments_error:
  "snd (parseMediaElementCommentCount elem media) = snd (parseMediaElementCommentCount elem media')"
  by (simp add: parseMediaElementCommentCount_def Let_def split: option.splits sum.splits)

lemma row_ID:
  assumes "parseMediaElement elem = Some (m, e)"
  shows "ID m = ID (fst (parseMediaElementLinks (Find elem ''td a:not(.comments)'') zeroMedia))"
  using assms
proof (cases rule: row_cases)
  case (links err)
  then show ?thesis by simp
next
  case (texts m1 err)
  with texts_ID [of "Find elem ''td''" m1] show ?thesis by simp
next
  case (timestamp m1 m2 err)
  with texts_ID [of "Find elem ''td''" m1] timestamp_ID [of "Find elem ''td''" m2 m "Some err"]
  show ?thesis by simp
next
  case (comments m1 m2 m3)
  with texts_ID [of "Find elem ''td''" m1] timestamp_ID [of "Find elem ''td''" m2 m3 None]
    comments_ID [of elem m3]
  show ?thesis by simp
qed

lemma row_CommentCount:
  assumes "parseMediaElement elem = Some (m, e)" and "Find elem ''.comments'' = []"
  shows "CommentCount m = 0"
proof -
  have cc: "parseMediaElementCommentCount elem m' = (m', None)" for m'
    using assms(2) by (simp add: parseMediaElementCommentCount_def)
  have z: "CommentCount zeroMedia = 0" by (simp add: zeroMedia_def)
  from assms(1) show ?thesis
  proof (cases rule: row_cases)
    case (links err)
    with links_CommentCount [of "Find elem ''td a:not(.comments)''" zeroMedia] z
    show ?thesis by simp
  next
    case (texts m1 err)
    with links_CommentCount [of "Find elem ''td a:not(.comments)''" zeroMedia]
      texts_CommentCount [of "Find elem ''td''" m1] z
    show ?thesis by simp
  next
    case (timestamp m1 m2 err)
    with links_CommentCount [of "Find elem ''td a:not(.comments)''" zeroMedia]
      texts_CommentCount [of "Find elem ''td''" m1]
      timestamp_CommentCount [of "Find elem ''td''" m2 m "Some err"] z
    show ?thesis by simp
  next
    case (comments m1 m2 m3)
    with links_CommentCount [of "Find elem ''td a:not(.comments)''" zeroMedia]
      texts_CommentCount [of "Find elem ''td''" m1]
      timestamp_CommentCount [of "Find elem ''td''" m2 m3 None] cc [of m3] z
    show ?thesis by simp
  qed
qed

lemma row_fails_with_comments:
  assumes "snd (parseMediaElementCommentCount elem media) = Some err"
  shows "\<exists>m err'. parseMediaElement elem = Some (m, Some err')"
proof -
  obtain m e where row: "parseMediaElement elem = Some (m, e)"
    using parseMediaElement_total [of elem] by (cases "parseMediaElement elem") auto
  from row show ?thesis
  proof (cases rule: row_cases)
    case (comments m1 m2 m3)
    with comments_error [of elem m3 media] assms have "e = Some err" by simp
    with row show ?thesis by blast
  qed (use row in blast)+
qed

section \<open>Lemmas on the page parser\<close>

lemma step_weight: "step selection t s = Some s' \<Longrightarrow> weight selection s' < weight selection s"
proof (cases t)
  case Worker
  assume "step selection t s = Some s'"
  with Worker show ?thesis
    by (cases "workerG s") (auto simp: weight_def split: option.splits if_splits)
next
  case Waiter
  assume "step selection t s = Some s'"
  with Waiter show ?thesis
    by (cases "waiterG s") (auto simp: weight_def split: if_splits)
next
  case MainErr
  assume "step selection t s = Some s'"
  with MainErr show ?thesis
    by (cases "workerG s"; cases "mainG s") (auto simp: weight_def split: if_splits)
next
  case MainDone
  assume "step selection t s = Some s'"
  with MainDone show ?thesis
    by (cases "waiterG s"; cases "mainG s") (auto simp: weight_def split: if_splits)
qed

lemma effective_weight:
  "effective selection sched s + weight selection (exec selection sched s) \<le> weight selection s"
proof (induction sched arbitrary: s)
  case Nil
  then show ?case by simp
next
  case (Cons t ts)
  show ?case
  proof (cases "step selection t s")
    case None
    then show ?thesis using Cons.IH [of s] by simp
  next
    case (Some s')
    then show ?thesis using Cons.IH [of s'] step_weight [OF Some] by simp
  qed
qed

lemma weight_init: "weight selection (init selection) = 2 * length selection + 3"
  by (simp add: weight_def init_def)

lemma effective_bound: "effective selection sched (init selection) \<le> 2 * length selection + 3"
  using effective_weight [of selection sched "init selection"] by (simp add: weight_init)

lemma exec_append: "exec selection (xs @ ys) s = exec selection ys (exec selection xs s)"
  by (induction xs arbitrary: s) (auto split: option.splits)

lemma effective_append:
  "effective selection (xs @ ys) s = effective selection xs s + effective selection ys (exec selection xs s)"
  by (induction xs arbitrary: s) (auto split: option.splits)

lemma invOK_init: "invOK selection (init selection)"
  by (simp add: invOK_def init_def)

lemma invOK_worker:
  assumes ok: "allOK selection" and inv: "invOK selection s" and st: "step selection Worker s = Some s'"
  shows "invOK selection s'"
proof (cases "workerG s")
  case (WAt i)
  with st have i: "i < length selection" by (simp split: if_splits)
  from ok i obtain m where m: "parseMediaElement (selection ! i) = Some (m, None)"
    by (auto simp: allOK_def)
  from st WAt i m have s': "s' = s\<lparr>medias := (medias s)[i := m], workerG := WDone i\<rparr>" by simp
  from inv WAt i have w: "waiterG s = WWait" and ms: "mainG s = MSelect"
    by (auto simp: invOK_def split: waiter.splits)
  from inv WAt have len: "length (medias s) = length selection"
    and g: "group s = int (length selection) - int i"
    and old: "\<forall>j<i. parseMediaElement (selection ! j) = Some (medias s ! j, None)"
    by (simp_all add: invOK_def)
  have "\<forall>j<Suc i. parseMediaElement (selection ! j) = Some ((medias s)[i := m] ! j, None)"
    using old m i len by (auto simp: less_Suc_eq nth_list_update)
  then show ?thesis using s' w ms len g i by (simp add: invOK_def)
next
  case (WDone i)
  with st have s': "s' = s\<lparr>group := group s - 1, workerG := WAt (i + 1)\<rparr>" by simp
  from inv WDone have w: "waiterG s = WWait" and ms: "mainG s = MSelect"
    by (auto simp: invOK_def split: waiter.splits)
  from inv WDone show ?thesis using s' w ms by (simp add: invOK_def)
next
  case (WSend i e)
  with st show ?thesis by simp
next
  case WPanic
  with st show ?thesis by simp
qed

lemma invOK_step:
  assumes ok: "allOK selection" and inv: "invOK selection s" and st: "step selection t s = Some s'"
  shows "invOK selection s'"
proof (cases t)
  case Worker
  then show ?thesis using invOK_worker [OF ok inv] st by simp
next
  case Waiter
  with st have w: "waiterG s = WWait" and g: "group s = 0" and s': "s' = s\<lparr>waiterG := WSendDone\<rparr>"
    by (auto split: if_splits waiter.splits)
  from inv w g have "workerG s = WAt (length selection)"
    by (auto simp: invOK_def split: worker.splits)
  then show ?thesis using inv w s' by (simp add: invOK_def)
next
  case MainErr
  with st inv show ?thesis by (auto simp: invOK_def split: if_splits worker.splits)
next
  case MainDone
  with st have w: "waiterG s = WSendDone"
    and s': "s' = s\<lparr>mainG := MReturned (Inr (medias s)), waiterG := WExit\<rparr>"
    by (auto split: if_splits waiter.splits)
  from inv w have "workerG s = WAt (length selection)" by (simp add: invOK_def)
  then show ?thesis using inv w s' by (simp add: invOK_def)
qed

lemma invOK_exec:
  assumes ok: "allOK selection"
  shows "invOK selection s \<Longrightarrow> invOK selection (exec selection sched s)"
proof (induction sched arbitrary: s)
  case Nil
  then show ?case by simp
next
  case (Cons t ts)
  then show ?case using invOK_step [OF ok] by (cases "step selection t s") auto
qed

lemma invOK_result:
  assumes "invOK selection s" and "mainG s = MReturned r"
  shows "\<exists>ms. r = Inr ms \<and> length ms = length selection \<and>
              (\<forall>i<length selection. parseMediaElement (selection ! i) = Some (ms ! i, None))"
  using assms by (auto simp: invOK_def split: waiter.splits)

lemma invOK_progress:
  assumes "invOK selection s" and "mainG s = MSelect"
  shows "\<exists>t. step selection t s \<noteq> None"
proof (cases "waiterG s")
  case WWait
  show ?thesis
  proof (cases "workerG s")
    case (WAt i)
    show ?thesis
    proof (cases "i < length selection")
      case True
      then have "step selection Worker s \<noteq> None"
        using WAt by (auto split: option.splits)
      then show ?thesis by blast
    next
      case False
      with assms WAt have "group s = 0" by (simp add: invOK_def)
      then have "step selection Waiter s \<noteq> None" using WWait WAt by simp
      then show ?thesis by blast
    qed
  next
    case (WDone i)
    then have "step selection Worker s \<noteq> None" by simp
    then show ?thesis by blast
  next
    case (WSend i e)
    with assms show ?thesis by (simp add: invOK_def)
  next
    case WPanic
    with assms show ?thesis by (simp add: invOK_def)
  qed
next
  case WSendDone
  with assms have "step selection MainDone s \<noteq> None" by (simp add: invOK_def)
  then show ?thesis by blast
next
  case WExit
  with assms show ?thesis by (simp add: invOK_def)
qed

lemma invFail_init: "invFail selection k err (init selection)"
  by (simp add: invFail_def init_def)

lemma step_mainG_returned:
  "step selection t s = Some s' \<Longrightarrow> mainG s = MReturned r \<Longrightarrow> mainG s' = MReturned r"
  by (cases t) (auto split: worker.splits waiter.splits option.splits if_splits)

lemma invFail_step:
  assumes ff: "firstFail selection k err" and inv: "invFail selection k err s"
    and st: "step selection t s = Some s'"
  shows "invFail selection k err s'"
proof (cases "mainG s")
  case (MReturned r)
  with inv have "r = Inl (Wrap err ''error parsing media element'')" by (simp add: invFail_def)
  moreover have "mainG s' = MReturned r" using step_mainG_returned [OF st MReturned] .
  ultimately show ?thesis by (simp add: invFail_def)
next
  case MSelect
  with inv have w: "waiterG s = WWait" by (simp add: invFail_def)
  from ff have k: "k < length selection" by (simp add: firstFail_def)
  show ?thesis
  proof (cases t)
    case Worker
    show ?thesis
    proof (cases "workerG s")
      case (WAt i)
      with inv MSelect have ik: "i \<le> k" and g: "group s = int (length selection) - int i"
        by (simp_all add: invFail_def)
      show ?thesis
      proof (cases "i = k")
        case True
        from ff obtain m where "parseMediaElement (selection ! k) = Some (m, Some err)"
          by (auto simp: firstFail_def)
        with st Worker WAt True k
        have "s' = s\<lparr>workerG := WSend k (Wrap err ''error parsing media element'')\<rparr>" by simp
        then show ?thesis using MSelect w g True by (simp add: invFail_def)
      next
        case False
        with ik have lt: "i < k" by simp
        with ff obtain m where "parseMediaElement (selection ! i) = Some (m, None)"
          by (auto simp: firstFail_def)
        with st Worker WAt lt k
        have "s' = s\<lparr>medias := (medias s)[i := m], workerG := WDone i\<rparr>" by simp
        then show ?thesis using MSelect w g lt by (simp add: invFail_def)
      qed
    next
      case (WDone i)
      with st Worker have "s' = s\<lparr>group := group s - 1, workerG := WAt (i + 1)\<rparr>" by simp
      then show ?thesis using inv MSelect WDone by (simp add: invFail_def)
    next
      case (WSend i e)
      with st Worker show ?thesis by simp
    next
      case WPanic
      with st Worker show ?thesis by simp
    qed
  next
    case Waiter
    with st w have g0: "group s = 0" by (auto split: if_splits)
    from inv MSelect k have "group s > 0"
      by (auto simp: invFail_def split: worker.splits)
    with g0 show ?thesis by simp
  next
    case MainErr
    with st MSelect obtain i e where ws: "workerG s = WSend i e"
      and s': "s' = s\<lparr>mainG := MReturned (Inl e), workerG := WAt (i + 1)\<rparr>"
      by (auto split: worker.splits)
    from inv MSelect ws have "e = Wrap err ''error parsing media element''"
      by (simp add: invFail_def)
    then show ?thesis using s' by (simp add: invFail_def)
  next
    case MainDone
    with st w show ?thesis by (auto split: if_splits)
  qed
qed

lemma invFail_exec:
  assumes ff: "firstFail selection k err"
  shows "invFail selection k err s \<Longrightarrow> invFail selection k err (exec selection sched s)"
proof (induction sched arbitrary: s)
  case Nil
  then show ?case by simp
next
  case (Cons t ts)
  then show ?case using invFail_step [OF ff] by (cases "step selection t s") auto
qed

lemma invFail_progress:
  assumes ff: "firstFail selection k err" and inv: "invFail selection k err s"
    and ms: "mainG s = MSelect"
  shows "\<exists>t. step selection t s \<noteq> None"
proof (cases "workerG s")
  case (WAt i)
  with inv ms ff have "i < length selection" by (simp add: invFail_def firstFail_def)
  then have "step selection Worker s \<noteq> None" using WAt by (auto split: option.splits)
  then show ?thesis by blast
next
  case (WDone i)
  then have "step selection Worker s \<noteq> None" by simp
  then show ?thesis by blast
next
  case (WSend i e)
  with ms have "step selection MainErr s \<noteq> None" by simp
  then show ?thesis by blast
next
  case WPanic
  with inv ms show ?thesis by (simp add: invFail_def)
qed

lemma some_schedule_returns:
  assumes prog: "\<And>sched. mainG (exec selection sched (init selection)) = MSelect \<Longrightarrow>
                   \<exists>t. step selection t (exec selection sched (init selection)) \<noteq> None"
  shows "\<exists>sched r. mainG (exec selection sched (init selection)) = MReturned r"
proof (rule ccontr)
  assume no: "\<not> ?thesis"
  have sel: "mainG (exec selection sched (init selection)) = MSelect" for sched
    using no by (cases "mainG (exec selection sched (init selection))") auto
  have "\<exists>sched. effective selection sched (init selection) = n" for n
  proof (induction n)
    case 0
    have "effective selection [] (init selection) = 0" by simp
    then show ?case by blast
  next
    case (Suc n)
    then obtain sched where e: "effective selection sched (init selection) = n" by blast
    from prog [OF sel] obtain t where
      "step selection t (exec selection sched (init selection)) \<noteq> None" by blast
    then have "effective selection (sched @ [t]) (init selection) = Suc n"
      using e by (auto simp: effective_append)
    then show ?case by blast
  qed
  then obtain sched where
    "effective selection sched (init selection) = 2 * length selection + 4" by blast
  with effective_bound [of selection sched] show False by simp
qed

text \<open>
  The extraction of a row never panics, so no run of the page parser reaches \<open>WPanic\<close>.
\<close>

lemma step_no_panic:
  "step selection t s = Some s' \<Longrightarrow> workerG s \<noteq> WPanic \<Longrightarrow> workerG s' \<noteq> WPanic"
proof (cases t)
  case Worker
  assume "step selection t s = Some s'" and "workerG s \<noteq> WPanic"
  with Worker show ?thesis
    by (cases "workerG s") (auto simp: parseMediaElement_total split: option.splits if_splits)
next
  case Waiter
  assume "step selection t s = Some s'" and "workerG s \<noteq> WPanic"
  with Waiter show ?thesis by (cases "waiterG s") (auto split: if_splits)
next
  case MainErr
  assume "step selection t s = Some s'" and "workerG s \<noteq> WPanic"
  with MainErr show ?thesis by (cases "workerG s") (auto split: if_splits)
next
  case MainDone
  assume "step selection t s = Some s'" and "workerG s \<noteq> WPanic"
  with MainDone show ?thesis by (cases "waiterG s") (auto split: if_splits)
qed

lemma exec_no_panic:
  "workerG s \<noteq> WPanic \<Longrightarrow> workerG (exec selection sched s) \<noteq> WPanic"
proof (induction sched arbitrary: s)
  case Nil
  then show ?case by simp
next
  case (Cons t ts)
  then show ?case using step_no_panic by (cases "step selection t s") auto
qed

lemma page_parser_no_panic: "workerG (exec selection sched (init selection)) \<noteq> WPanic"
  by (rule exec_no_panic) (simp add: init_def)

section \<open>Lemmas on the query builder\<close>

lemma url_Parse_NyaaURL:
  "url_Parse NyaaURL = Inr \<lparr>Scheme = ''https'', Host = ''nyaa.si'', Path = [], RawQuery = []\<rparr>"
  by (simp add: url_Parse_def NyaaURL_def plainURLChar_def isAlpha_def isAlnum_def lowerChar_def Let_def)

lemma urlForParams_closed:
  "urlForParams search parameters =
     Inr (''https://nyaa.si?c='' @ QueryEscape (ParamCategory parameters)
          @ ''&f='' @ QueryEscape (FormatInt (Filter parameters))
          @ ''&o='' @ QueryEscape (SortOrder parameters)
          @ ''&q='' @ QueryEscape search
          @ ''&s='' @ QueryEscape (SortBy parameters))"
  by (simp add: urlForParams_def url_Parse_NyaaURL Let_def Query_def Set_def Encode_def URL_String_def
       QueryEscape_def shouldEscape_def isAlnum_def)

lemma escape_query_no_slash: "CHR ''/'' \<notin> set (escape s encodeQueryComponent)"
proof (induction s)
  case Nil
  then show ?case by simp
next
  case (Cons c cs)
  have "upperhex ! n \<noteq> CHR ''/''" if "n < 16" for n
  proof -
    have len: "length upperhex = 16" and notin: "CHR ''/'' \<notin> set upperhex"
      by (simp_all add: upperhex_def)
    from that len have "upperhex ! n \<in> set upperhex" by (intro nth_mem) simp
    with notin show ?thesis by metis
  qed
  then have hex: "upperhex ! ((of_char c :: nat) div 16) \<noteq> CHR ''/''"
    "upperhex ! ((of_char c :: nat) mod 16) \<noteq> CHR ''/''"
    by (simp_all add: less_mult_imp_div_less)
  have "shouldEscape (CHR ''/'') encodeQueryComponent"
    by (simp add: shouldEscape_def isAlnum_def)
  then have "c \<noteq> CHR ''/''" if "\<not> shouldEscape c encodeQueryComponent" using that by auto
  with Cons hex show ?case by auto
qed

lemma Contains_hd: "Contains s (c # sub) \<Longrightarrow> c \<in> set s"
proof (induction s)
  case Nil
  then show ?case by simp
next
  case (Cons a as)
  then show ?case by (auto simp: take_Cons')
qed


lemma Contains_prefix_nyaa:
  "Contains (''https://nyaa.si?'' @ rest) ''/user/'' \<Longrightarrow> Contains rest ''/user/''"
  by simp

lemma urlForParams_no_user:
  "\<exists>URL. urlForParams search parameters = Inr URL \<and> \<not> Contains URL ''/user/''"
proof -
  define rest where "rest = ''c='' @ QueryEscape (ParamCategory parameters)
          @ ''&f='' @ QueryEscape (FormatInt (Filter parameters))
          @ ''&o='' @ QueryEscape (SortOrder parameters)
          @ ''&q='' @ QueryEscape search
          @ ''&s='' @ QueryEscape (SortBy parameters)"
  have url: "urlForParams search parameters = Inr (''https://nyaa.si?'' @ rest)"
    by (simp add: urlForParams_closed rest_def)
  have "CHR ''/'' \<notin> set rest"
    by (simp add: rest_def QueryEscape_def escape_query_no_slash)
  then have "\<not> Contains rest ''/user/''"
    using Contains_hd [of rest "CHR ''/''" "''user/''"] by auto
  then have "\<not> Contains (''https://nyaa.si?'' @ rest) ''/user/''"
    using Contains_prefix_nyaa by blast
  with url show ?thesis by blast
qed

section \<open>The sample rows, evaluated\<close>

lemmas row_eval =
  Atoi_def isDigit_def digitVal_def digitChar_def FormatInt_def TrimPrefix_def hrefToID_def
  natDigits.simps getAttributeValueByKey_def hrefToCategory_def anchor_def textNode_def cell_def
  commentsLink_def textOf_def FirstChild_def LastChild_def FromHumanSize_def RAMInBytes_def
  parseSize_def ParseFloat_def decimalMap_def binaryMap_def lowerChar_def linksWithView_def
  goodLinks_def goodCells_def

lemma goodLinks_parse:
  "parseMediaElementLinks goodLinks m =
     (m\<lparr>Category := ''1_2'', ID := 123, Name := ''Foo'', Torrent := ''/download/123.torrent'',
        Magnet := ''magnet:?xt=urn''\<rparr>, None)"
  by (simp add: parseMediaElementLinks_def row_eval)

lemma goodCells_parse:
  "parseMediaElementTexts goodCells m =
     (m\<lparr>Size := 1500000000, Seeders := 10, Leechers := 2, Downloads := 345\<rparr>, None)"
  by (simp add: parseMediaElementTexts_def row_eval)

lemma goodCells_timestamp:
  "parseMediaElementTimestamp goodCells m = Some (m\<lparr>Date := 1600000000\<rparr>, None)"
  by (simp add: parseMediaElementTimestamp_def row_eval)

lemma goodRow_parse: "parseMediaElement goodRow = Some (goodMedia, None)"
  by (simp add: parseMediaElement_def Find_def goodRow_def mkRow_def goodLinks_parse goodCells_parse
        goodCells_timestamp parseMediaElementCommentCount_def)
     (simp add: zeroMedia_def goodMedia_def)

lemma threeLinkRow_parse:
  "parseMediaElement threeLinkRow =
     Some (zeroMedia, Some (Errorf ''unexpected layout: expected 4 links, got 3''))"
  by (simp add: parseMediaElement_def Find_def threeLinkRow_def mkRow_def parseMediaElementLinks_def
        goodLinks_def linksWithView_def FormatInt_def natDigits.simps digitChar_def)

lemma sevenCellRow_parse:
  "parseMediaElement sevenCellRow =
     Some (zeroMedia\<lparr>Category := ''1_2'', ID := 123, Name := ''Foo'',
                      Torrent := ''/download/123.torrent'', Magnet := ''magnet:?xt=urn''\<rparr>,
           Some (Errorf ''unexpected layout: expected 8 nodes, got 7''))"
  by (simp add: parseMediaElement_def Find_def sevenCellRow_def mkRow_def goodLinks_parse
        parseMediaElementTexts_def goodCells_def FormatInt_def natDigits.simps digitChar_def)

lemma noHrefSevenCellRow_parse:
  "parseMediaElement noHrefSevenCellRow =
     Some (zeroMedia, Some (New ''unexpected layout: first link does not have an href''))"
  by (simp add: parseMediaElement_def Find_def noHrefSevenCellRow_def mkRow_def
        parseMediaElementLinks_def row_eval)

section \<open>Count mismatches (claim C7)\<close>

text \<open>
  Claim C7 as stated fails: the sub-steps run in sequence, so a row with four anchors
  of which the first has no \<open>href\<close>, and with seven cells, fails with the error of the
  link step, which is no count mismatch.
\<close>

theorem C7_counterexample:
  "length (Find noHrefSevenCellRow ''td'') = 7 \<and>
   length (Find noHrefSevenCellRow ''td a:not(.comments)'') = 4 \<and>
   parseMediaElement noHrefSevenCellRow =
     Some (zeroMedia, Some (New ''unexpected layout: first link does not have an href''))"
  by (simp add: noHrefSevenCellRow_parse)
     (simp add: Find_def noHrefSevenCellRow_def mkRow_def goodCells_def goodLinks_def linksWithView_def)

text \<open>
  Claim C7, amended: a row whose number of qualifying anchors is not 4 fails with the
  count-mismatch error \<open>expected 4 links, got n\<close>; a row whose link step succeeded and
  whose number of cells is not 8 fails with the count-mismatch error
  \<open>expected 8 nodes, got n\<close>; and whenever one of the two counts is off, the row
  extraction returns a non-nil error, never a success.
\<close>

theorem row_count_mismatch:
  "(length (Find elem ''td a:not(.comments)'') \<noteq> 4 \<longrightarrow>
      parseMediaElement elem =
        Some (zeroMedia, Some (Errorf (''unexpected layout: expected 4 links, got ''
                @ FormatInt (int (length (Find elem ''td a:not(.comments)'')))))))
   \<and> (\<forall>m. parseMediaElementLinks (Find elem ''td a:not(.comments)'') zeroMedia = (m, None)
            \<and> length (Find elem ''td'') \<noteq> 8 \<longrightarrow>
      parseMediaElement elem =
        Some (m, Some (Errorf (''unexpected layout: expected 8 nodes, got ''
                @ FormatInt (int (length (Find elem ''td'')))))))
   \<and> (length (Find elem ''td a:not(.comments)'') \<noteq> 4 \<or> length (Find elem ''td'') \<noteq> 8 \<longrightarrow>
      (\<exists>m err. parseMediaElement elem = Some (m, Some err)))"
proof (intro conjI impI allI)
  assume "length (Find elem ''td a:not(.comments)'') \<noteq> 4"
  then show "parseMediaElement elem =
        Some (zeroMedia, Some (Errorf (''unexpected layout: expected 4 links, got ''
                @ FormatInt (int (length (Find elem ''td a:not(.comments)''))))))"
    by (simp add: row_links_error links_count)
next
  fix m
  assume "parseMediaElementLinks (Find elem ''td a:not(.comments)'') zeroMedia = (m, None)
            \<and> length (Find elem ''td'') \<noteq> 8"
  then show "parseMediaElement elem =
        Some (m, Some (Errorf (''unexpected layout: expected 8 nodes, got ''
                @ FormatInt (int (length (Find elem ''td''))))))"
    by (simp add: row_texts_error texts_count)
next
  assume a: "length (Find elem ''td a:not(.comments)'') \<noteq> 4 \<or> length (Find elem ''td'') \<noteq> 8"
  obtain m e where l: "parseMediaElementLinks (Find elem ''td a:not(.comments)'') zeroMedia = (m, e)"
    by (cases "parseMediaElementLinks (Find elem ''td a:not(.comments)'') zeroMedia")
  show "\<exists>m err. parseMediaElement elem = Some (m, Some err)"
  proof (cases e)
    case (Some err)
    with l show ?thesis using row_links_error by blast
  next
    case None
    with l a have "length (Find elem ''td'') \<noteq> 8" by (auto simp: links_count)
    with l None show ?thesis using row_texts_error texts_count by blast
  qed
qed

theorem row_count_mismatch_witness:
  "length (Find threeLinkRow ''td a:not(.comments)'') = 3 \<and>
   parseMediaElement threeLinkRow =
     Some (zeroMedia, Some (Errorf ''unexpected layout: expected 4 links, got 3'')) \<and>
   length (Find sevenCellRow ''td'') = 7 \<and>
   (\<exists>m. parseMediaElement sevenCellRow =
     Some (m, Some (Errorf ''unexpected layout: expected 8 nodes, got 7'')))"
proof -
  have three: "length (Find threeLinkRow ''td a:not(.comments)'') = 3"
    by (simp add: Find_def threeLinkRow_def mkRow_def goodLinks_def linksWithView_def)
  have seven: "length (Find sevenCellRow ''td'') = 7"
    and links: "Find sevenCellRow ''td a:not(.comments)'' = goodLinks"
    by (simp_all add: Find_def sevenCellRow_def mkRow_def goodCells_def)
  have fmt: "FormatInt 3 = ''3''" "FormatInt 7 = ''7''"
    by (simp_all add: FormatInt_def natDigits.simps digitChar_def)
  from row_count_mismatch [of threeLinkRow] three fmt
  have a: "parseMediaElement threeLinkRow =
     Some (zeroMedia, Some (Errorf ''unexpected layout: expected 4 links, got 3''))" by simp
  from row_count_mismatch [of sevenCellRow] seven links fmt goodLinks_parse [of zeroMedia]
  have b: "\<exists>m. parseMediaElement sevenCellRow =
     Some (m, Some (Errorf ''unexpected layout: expected 8 nodes, got 7''))" by simp
  from three a seven b show ?thesis by blast
qed

section \<open>The ID of a row (claim C5)\<close>

text \<open>
  Claim C5 as stated fails: \<open>hrefToID\<close> accepts whatever \<open>strconv.Atoi\<close> accepts and
  converts it to \<open>uint\<close>. The remainder \<open>0\<close> gives the ID 0 and the remainder \<open>-5\<close> the
  ID \<open>2^64 - 5\<close>, both without an error.
\<close>

theorem C5_counterexample:
  "hrefToID ''/view/0'' = Inr 0 \<and>
   parseMediaElement (mkRow (linksWithView ''/view/0'') goodCells []) =
     Some (goodMedia\<lparr>ID := 0\<rparr>, None) \<and>
   hrefToID ''/view/-5'' = Inr 18446744073709551611 \<and>
   parseMediaElement (mkRow (linksWithView ''/view/-5'') goodCells []) =
     Some (goodMedia\<lparr>ID := 18446744073709551611\<rparr>, None)"
proof -
  have l: "parseMediaElementLinks (linksWithView ''/view/0'') zeroMedia =
      (zeroMedia\<lparr>Category := ''1_2'', ID := 0, Name := ''Foo'',
                  Torrent := ''/download/123.torrent'', Magnet := ''magnet:?xt=urn''\<rparr>, None)"
    "parseMediaElementLinks (linksWithView ''/view/-5'') zeroMedia =
      (zeroMedia\<lparr>Category := ''1_2'', ID := 18446744073709551611, Name := ''Foo'',
                  Torrent := ''/download/123.torrent'', Magnet := ''magnet:?xt=urn''\<rparr>, None)"
    by (simp_all add: parseMediaElementLinks_def row_eval)
  have h: "hrefToID ''/view/0'' = Inr 0" "hrefToID ''/view/-5'' = Inr 18446744073709551611"
    by (simp_all add: row_eval)
  have "parseMediaElement (mkRow (linksWithView ''/view/0'') goodCells []) =
     Some (goodMedia\<lparr>ID := 0\<rparr>, None)"
    by (simp add: parseMediaElement_def Find_def mkRow_def l goodCells_parse
          goodCells_timestamp parseMediaElementCommentCount_def)
       (simp add: zeroMedia_def goodMedia_def)
  moreover have "parseMediaElement (mkRow (linksWithView ''/view/-5'') goodCells []) =
     Some (goodMedia\<lparr>ID := 18446744073709551611\<rparr>, None)"
    by (simp add: parseMediaElement_def Find_def mkRow_def l goodCells_parse
          goodCells_timestamp parseMediaElementCommentCount_def)
       (simp add: zeroMedia_def goodMedia_def)
  ultimately show ?thesis using h by simp
qed

text \<open>
  Claim C5, amended: for a row with four qualifying anchors of which the first two
  have an \<open>href\<close>, the ID comes from the \<open>href\<close> of the second anchor, stripped of the
  prefix \<open>/view/\<close>. When the remainder is a decimal integer (an optional sign, then
  digits only, the value in \<open>[-2^63, 2^63)\<close>), the ID of whatever the row extraction
  returns is that integer converted to \<open>uint\<close>, zero and negative integers included,
  and the row extraction reports no ID-parse error. When it is not, the row extraction
  fails with the error of \<open>Atoi\<close> wrapped as \<open>error parsing ID\<close>.
\<close>

theorem id_from_second_anchor:
  assumes "length (Find elem ''td a:not(.comments)'') = 4"
    and "getAttributeValueByKey (Find elem ''td a:not(.comments)'' ! 0) ''href'' = (h0, True)"
    and "getAttributeValueByKey (Find elem ''td a:not(.comments)'' ! 1) ''href'' = (href, True)"
  shows "case intOfDecimal (TrimPrefix href ''/view/'') of
           Some n \<Rightarrow>
             hrefToID href = Inr (word_of_int n) \<and>
             (\<forall>m e. parseMediaElement elem = Some (m, e) \<longrightarrow>
                ID m = word_of_int n \<and> (\<forall>err. e \<noteq> Some (Wrap err ''error parsing ID'')))
         | None \<Rightarrow>
             (\<exists>e. hrefToID href = Inl (NumError ''Atoi'' (TrimPrefix href ''/view/'') e) \<and>
                  parseMediaElement elem =
                    Some (zeroMedia\<lparr>Category := hrefToCategory h0\<rparr>,
                          Some (Wrap (NumError ''Atoi'' (TrimPrefix href ''/view/'') e)
                                     ''error parsing ID'')))"
proof (cases "intOfDecimal (TrimPrefix href ''/view/'')")
  case None
  then obtain e where e: "hrefToID href = Inl (NumError ''Atoi'' (TrimPrefix href ''/view/'') e)"
    by (auto simp: hrefToID_intOfDecimal)
  then have "parseMediaElementLinks (Find elem ''td a:not(.comments)'') zeroMedia =
      (zeroMedia\<lparr>Category := hrefToCategory h0\<rparr>,
       Some (Wrap (NumError ''Atoi'' (TrimPrefix href ''/view/'') e) ''error parsing ID''))"
    by (simp add: links_ID [OF assms])
  from row_links_error [OF this] e None show ?thesis by auto
next
  case (Some n)
  then have id: "hrefToID href = Inr (word_of_int n)" by (simp add: hrefToID_intOfDecimal)
  note ok = links_ID_ok [OF assms id, of zeroMedia]
  have "ID m = word_of_int n \<and> (\<forall>err. e \<noteq> Some (Wrap err ''error parsing ID''))"
    if row: "parseMediaElement elem = Some (m, e)" for m e
  proof
    from row_ID [OF row] ok(1) show "ID m = word_of_int n" by simp
    show "\<forall>err. e \<noteq> Some (Wrap err ''error parsing ID'')"
    proof
      fix err
      from row show "e \<noteq> Some (Wrap err ''error parsing ID'')"
      proof (cases rule: row_cases)
        case (links err')
        with ok(2) [of err] show ?thesis by auto
      next
        case (texts m1 err')
        then show ?thesis
          by (auto simp: parseMediaElementTexts_def Let_def split: if_splits option.splits sum.splits)
      next
        case (timestamp m1 m2 err')
        then show ?thesis
          by (auto simp: parseMediaElementTimestamp_def Let_def
                   split: if_splits prod.splits sum.splits)
      next
        case (comments m1 m2 m3)
        then show ?thesis
          by (auto simp: parseMediaElementCommentCount_def Let_def
                   split: if_splits option.splits sum.splits)
      qed
    qed
  qed
  with id Some show ?thesis by simp
qed

theorem id_from_second_anchor_witness:
  "length (Find goodRow ''td a:not(.comments)'') = 4 \<and>
   getAttributeValueByKey (Find goodRow ''td a:not(.comments)'' ! 1) ''href'' = (''/view/123'', True) \<and>
   intOfDecimal (TrimPrefix ''/view/123'' ''/view/'') = Some 123 \<and>
   parseMediaElement goodRow = Some (goodMedia, None) \<and>
   ID goodMedia = 123 \<and>
   getAttributeValueByKey (Find (mkRow (linksWithView ''/view/12a'') goodCells []) ''td a:not(.comments)'' ! 1)
     ''href'' = (''/view/12a'', True) \<and>
   intOfDecimal (TrimPrefix ''/view/12a'' ''/view/'') = None \<and>
   (\<exists>e. parseMediaElement (mkRow (linksWithView ''/view/12a'') goodCells []) =
          Some (zeroMedia\<lparr>Category := ''1_2''\<rparr>,
                Some (Wrap (NumError ''Atoi'' ''12a'' e) ''error parsing ID'')))"
proof -
  let ?bad = "mkRow (linksWithView ''/view/12a'') goodCells []"
  have len: "length (Find goodRow ''td a:not(.comments)'') = 4"
    "length (Find ?bad ''td a:not(.comments)'') = 4"
    by (simp_all add: Find_def goodRow_def mkRow_def goodLinks_def linksWithView_def)
  have h0: "getAttributeValueByKey (Find goodRow ''td a:not(.comments)'' ! 0) ''href'' = (''/?c=1_2'', True)"
    "getAttributeValueByKey (Find ?bad ''td a:not(.comments)'' ! 0) ''href'' = (''/?c=1_2'', True)"
    by (simp_all add: Find_def goodRow_def mkRow_def row_eval)
  have h1: "getAttributeValueByKey (Find goodRow ''td a:not(.comments)'' ! 1) ''href'' = (''/view/123'', True)"
    "getAttributeValueByKey (Find ?bad ''td a:not(.comments)'' ! 1) ''href'' = (''/view/12a'', True)"
    by (simp_all add: Find_def goodRow_def mkRow_def row_eval)
  have dec: "intOfDecimal (TrimPrefix ''/view/123'' ''/view/'') = Some 123"
    "intOfDecimal (TrimPrefix ''/view/12a'' ''/view/'') = None"
    by (simp_all add: intOfDecimal_def digitsOf_def signOf_def TrimPrefix_def isDigit_def digitVal_def)
  have trim: "TrimPrefix ''/view/12a'' ''/view/'' = ''12a''" "hrefToCategory ''/?c=1_2'' = ''1_2''"
    by (simp_all add: TrimPrefix_def hrefToCategory_def)
  from id_from_second_anchor [OF len(1) h0(1) h1(1)] dec(1) goodRow_parse
  have a: "ID goodMedia = 123" by simp
  from id_from_second_anchor [OF len(2) h0(2) h1(2)] dec(2) trim
  have b: "\<exists>e. parseMediaElement ?bad =
          Some (zeroMedia\<lparr>Category := ''1_2''\<rparr>,
                Some (Wrap (NumError ''Atoi'' ''12a'' e) ''error parsing ID''))"
    by auto
  from len(1) h1 dec goodRow_parse a b show ?thesis by blast
qed

section \<open>The comment count (claim C6)\<close>

text \<open>
  Claim C6 as stated fails in its third part: a single comment marker whose text is
  \<open>-3\<close> is accepted, and \<open>CommentCount\<close> becomes \<open>2^64 - 3\<close>.
\<close>

theorem C6_counterexample:
  "Find (mkRow goodLinks goodCells [commentsLink ''-3'']) ''.comments'' = [commentsLink ''-3''] \<and>
   textOf (LastChild (commentsLink ''-3'')) = Some ''-3'' \<and>
   parseMediaElement (mkRow goodLinks goodCells [commentsLink ''-3'']) =
     Some (goodMedia\<lparr>CommentCount := 18446744073709551613\<rparr>, None)"
proof -
  have "parseMediaElementCommentCount (mkRow goodLinks goodCells [commentsLink ''-3'']) m =
     (m\<lparr>CommentCount := 18446744073709551613\<rparr>, None)" for m
    by (simp add: parseMediaElementCommentCount_def Find_def mkRow_def row_eval)
  then have "parseMediaElement (mkRow goodLinks goodCells [commentsLink ''-3'']) =
     Some (goodMedia\<lparr>CommentCount := 18446744073709551613\<rparr>, None)"
    by (simp add: parseMediaElement_def Find_def mkRow_def goodLinks_parse goodCells_parse
          goodCells_timestamp)
       (simp add: zeroMedia_def goodMedia_def)
  then show ?thesis by (simp add: Find_def mkRow_def row_eval)
qed

text \<open>
  Claim C6, amended: with no comment-marker element the step leaves the record as it
  is and returns no error, so \<open>CommentCount\<close> is 0 in whatever the row extraction
  returns; with two or more it fails with \<open>found more than one comments element\<close>;
  with exactly one, the last child must be a text node whose text is a decimal
  integer (an optional sign, then digits only, the value in \<open>[-2^63, 2^63)\<close>):
  then \<open>CommentCount\<close> is that integer converted to \<open>uint\<close>, and otherwise the step fails
  with an error that names the missing text child or wraps the error of \<open>Atoi\<close>.
  Whenever the step fails, the row extraction fails.
\<close>

theorem comment_count_cases:
  "(Find elem ''.comments'' = [] \<longrightarrow>
      parseMediaElementCommentCount elem media = (media, None) \<and>
      (\<forall>m e. parseMediaElement elem = Some (m, e) \<longrightarrow> CommentCount m = 0))
   \<and> (length (Find elem ''.comments'') > 1 \<longrightarrow>
      parseMediaElementCommentCount elem media =
        (media, Some (New ''found more than one comments element'')))
   \<and> (\<forall>node. Find elem ''.comments'' = [node] \<longrightarrow>
      (case textOf (LastChild node) of
         None \<Rightarrow>
           parseMediaElementCommentCount elem media =
             (media, Some (New ''unexpected layout: expected comments elem to have a text last child''))
       | Some text' \<Rightarrow>
           (case intOfDecimal text' of
              Some n \<Rightarrow>
                parseMediaElementCommentCount elem media =
                  (media\<lparr>CommentCount := word_of_int n\<rparr>, None)
            | None \<Rightarrow>
                (\<exists>e. parseMediaElementCommentCount elem media =
                   (media, Some (Wrap (NumError ''Atoi'' text' e) ''error parsing comment count''))))))
   \<and> (\<forall>err. snd (parseMediaElementCommentCount elem media) = Some err \<longrightarrow>
      (\<exists>m err'. parseMediaElement elem = Some (m, Some err')))"
proof (intro conjI impI allI)
  assume "Find elem ''.comments'' = []"
  then show "parseMediaElementCommentCount elem media = (media, None)"
    by (simp add: parseMediaElementCommentCount_def)
next
  fix m e
  assume "Find elem ''.comments'' = []" and "parseMediaElement elem = Some (m, e)"
  then show "CommentCount m = 0" using row_CommentCount by blast
next
  assume "length (Find elem ''.comments'') > 1"
  then show "parseMediaElementCommentCount elem media =
        (media, Some (New ''found more than one comments element''))"
    by (auto simp: parseMediaElementCommentCount_def Let_def)
next
  fix node
  assume one: "Find elem ''.comments'' = [node]"
  show "case textOf (LastChild node) of
         None \<Rightarrow>
           parseMediaElementCommentCount elem media =
             (media, Some (New ''unexpected layout: expected comments elem to have a text last child''))
       | Some text' \<Rightarrow>
           (case intOfDecimal text' of
              Some n \<Rightarrow>
                parseMediaElementCommentCount elem media =
                  (media\<lparr>CommentCount := word_of_int n\<rparr>, None)
            | None \<Rightarrow>
                (\<exists>e. parseMediaElementCommentCount elem media =
                   (media, Some (Wrap (NumError ''Atoi'' text' e) ''error parsing comment count''))))"
    using one
    by (simp add: parseMediaElementCommentCount_def Atoi_intOfDecimal split: option.splits)
next
  fix err
  assume "snd (parseMediaElementCommentCount elem media) = Some err"
  then show "\<exists>m err'. parseMediaElement elem = Some (m, Some err')"
    by (rule row_fails_with_comments)
qed

theorem comment_count_cases_witness:
  "Find goodRow ''.comments'' = [] \<and>
   parseMediaElementCommentCount goodRow zeroMedia = (zeroMedia, None) \<and>
   parseMediaElement goodRow = Some (goodMedia, None) \<and> CommentCount goodMedia = 0 \<and>
   parseMediaElementCommentCount (mkRow goodLinks goodCells [commentsLink ''7'', commentsLink ''7'']) zeroMedia =
     (zeroMedia, Some (New ''found more than one comments element'')) \<and>
   textOf (LastChild (commentsLink ''7'')) = Some ''7'' \<and> intOfDecimal ''7'' = Some 7 \<and>
   parseMediaElementCommentCount (mkRow goodLinks goodCells [commentsLink ''7'']) zeroMedia =
     (zeroMedia\<lparr>CommentCount := 7\<rparr>, None) \<and>
   intOfDecimal ''many'' = None \<and>
   (\<exists>e. parseMediaElementCommentCount (mkRow goodLinks goodCells [commentsLink ''many'']) zeroMedia =
      (zeroMedia, Some (Wrap (NumError ''Atoi'' ''many'' e) ''error parsing comment count'')))"
proof -
  have f0: "Find goodRow ''.comments'' = []"
    and f2: "length (Find (mkRow goodLinks goodCells [commentsLink ''7'', commentsLink ''7'']) ''.comments'') > 1"
    and f1: "Find (mkRow goodLinks goodCells [commentsLink ''7'']) ''.comments'' = [commentsLink ''7'']"
    and f1': "Find (mkRow goodLinks goodCells [commentsLink ''many'']) ''.comments'' = [commentsLink ''many'']"
    by (simp_all add: Find_def goodRow_def mkRow_def)
  have t: "textOf (LastChild (commentsLink ''7'')) = Some ''7''"
    "textOf (LastChild (commentsLink ''many'')) = Some ''many''"
    by (simp_all add: row_eval)
  have d: "intOfDecimal ''7'' = Some 7" "intOfDecimal ''many'' = None"
    by (simp_all add: intOfDecimal_def digitsOf_def signOf_def isDigit_def digitVal_def)
  from comment_count_cases [of goodRow zeroMedia] f0 goodRow_parse
  have a: "parseMediaElementCommentCount goodRow zeroMedia = (zeroMedia, None)"
    and a': "CommentCount goodMedia = 0" by simp_all
  from comment_count_cases [of "mkRow goodLinks goodCells [commentsLink ''7'', commentsLink ''7'']" zeroMedia] f2
  have b: "parseMediaElementCommentCount (mkRow goodLinks goodCells [commentsLink ''7'', commentsLink ''7'']) zeroMedia =
     (zeroMedia, Some (New ''found more than one comments element''))" by blast
  from comment_count_cases [of "mkRow goodLinks goodCells [commentsLink ''7'']" zeroMedia] f1 t d
  have c: "parseMediaElementCommentCount (mkRow goodLinks goodCells [commentsLink ''7'']) zeroMedia =
     (zeroMedia\<lparr>CommentCount := 7\<rparr>, None)" by simp
  from comment_count_cases [of "mkRow goodLinks goodCells [commentsLink ''many'']" zeroMedia] f1' t d
  have e: "\<exists>e. parseMediaElementCommentCount (mkRow goodLinks goodCells [commentsLink ''many'']) zeroMedia =
      (zeroMedia, Some (Wrap (NumError ''Atoi'' ''many'' e) ''error parsing comment count''))" by simp
  from f0 a goodRow_parse a' b t(1) d c e show ?thesis by blast
qed

section \<open>The size of a row (claim C4)\<close>

text \<open>
  Claim C4 asks for \<open>1.5 * 2^30 = 1610612736\<close> bytes for the size cell \<open>1.5 GiB\<close>.
  \<open>parseMediaElementTexts\<close> calls \<open>units.FromHumanSize\<close>, which reads every unit with the
  decimal multipliers and ignores the \<open>i\<close>: the row gets \<open>1.5 * 10^9\<close> bytes. The
  binary reading is what \<open>units.RAMInBytes\<close> computes.
\<close>

theorem size_cell_GiB_is_read_as_decimal:
  "textOf (FirstChild (goodCells ! 3)) = Some ''1.5 GiB'' \<and>
   FromHumanSize ''1.5 GiB'' = Inr 1500000000 \<and>
   RAMInBytes ''1.5 GiB'' = Inr 1610612736 \<and>
   parseMediaElementTexts goodCells zeroMedia =
     (zeroMedia\<lparr>Size := 1500000000, Seeders := 10, Leechers := 2, Downloads := 345\<rparr>, None) \<and>
   Size (fst (parseMediaElementTexts goodCells zeroMedia)) \<noteq> 1610612736"
  by (simp add: goodCells_parse) (simp add: row_eval)

section \<open>The user segment of the URL (claim C1)\<close>

text \<open>
  Claim C1 asks for the path segment \<open>/user/<name>\<close> in the URL when \<open>User\<close> is not
  empty. \<open>urlForParams\<close> does append it to \<open>baseURL\<close>, but then parses \<open>NyaaURL\<close> and not
  \<open>baseURL\<close>: whatever the search string and the parameters, the URL it returns has no
  \<open>/user/\<close> in it. For the user \<open>bob\<close> it is the URL of the unscoped search.
\<close>

theorem urlForParams_drops_user:
  "(\<exists>URL. urlForParams search parameters = Inr URL \<and> \<not> Contains URL ''/user/'')
   \<and> User (zeroSearchParameters\<lparr>User := ''bob''\<rparr>) \<noteq> []
   \<and> urlForParams ''naruto'' (zeroSearchParameters\<lparr>User := ''bob''\<rparr>)
       = Inr ''https://nyaa.si?c=&f=0&o=&q=naruto&s=''
   \<and> \<not> Contains ''https://nyaa.si?c=&f=0&o=&q=naruto&s='' (''/user/'' @ PathEscape ''bob'')"
proof -
  have "urlForParams ''naruto'' (zeroSearchParameters\<lparr>User := ''bob''\<rparr>)
       = Inr ''https://nyaa.si?c=&f=0&o=&q=naruto&s=''"
    by (simp add: urlForParams_closed zeroSearchParameters_def QueryEscape_def shouldEscape_def
          isAlnum_def FormatInt_def natDigits.simps digitChar_def)
  moreover have "\<not> Contains ''https://nyaa.si?c=&f=0&o=&q=naruto&s='' (''/user/'' @ PathEscape ''bob'')"
    by (simp add: PathEscape_def shouldEscape_def isAlnum_def)
  ultimately show ?thesis using urlForParams_no_user [of search parameters] by simp
qed

section \<open>Lemmas on the orchestrator\<close>

lemma urlForParams_zero:
  "urlForParams search zeroSearchParameters =
     Inr (''https://nyaa.si?c=&f=0&o=&q='' @ QueryEscape search @ ''&s='')"
  by (simp add: urlForParams_closed zeroSearchParameters_def QueryEscape_def shouldEscape_def
        isAlnum_def FormatInt_def natDigits.simps digitChar_def)

lemma requestHTML_trace:
  assumes "urlForParams search params = Inr URL"
  shows "take (Suc (length (trace w))) (trace (snd (requestHTML search params w)))
           = trace w @ [HTTPGet URL]"
  using assms
  by (auto simp: requestHTML_def Let_def split: sum.splits)

lemma Search_one_set:
  "getOneParameterSet parameters = Inr params \<Longrightarrow>
   Search sched search parameters w =
     (case requestHTML search params w of
        (Inl err, w') \<Rightarrow> (Some (Inl (Wrap err ''error getting the nyaa page'')), w')
      | (Inr doc, w') \<Rightarrow>
         (case parseSearchPageHTML sched doc of
            None \<Rightarrow> (None, w')
          | Some (Inl err) \<Rightarrow> (Some (Inl (Wrap err ''error parsing html'')), w')
          | Some (Inr medias') \<Rightarrow> (Some (Inr medias'), w')))"
  by (simp add: Search_def)

lemma Search_world:
  "getOneParameterSet parameters = Inr params \<Longrightarrow>
   snd (Search sched search parameters w) = snd (requestHTML search params w)"
  by (simp add: Search_def split: prod.splits sum.splits option.splits)

section \<open>The parameter sets of \<open>Search\<close> (claim C8)\<close>

text \<open>
  Claim C8: \<open>Search\<close> with more than one parameter set returns the error
  \<open>only one parameter set accepted\<close> and leaves the world as it was: no URL is
  requested, nothing is parsed. With no parameter set it proceeds with the zero-valued
  \<open>SearchParameters{}\<close>: it is the rest of \<open>Search\<close> run on
  \<open>requestHTML search SearchParameters{}\<close>, as with that single set, and the first
  thing the world then sees is the request of the URL built from the search string and
  the zero-valued parameters.
\<close>

theorem Search_parameter_sets:
  "(length parameters > 1 \<longrightarrow>
      Search sched search parameters w = (Some (Inl (New ''only one parameter set accepted'')), w))
   \<and> getOneParameterSet [] = Inr zeroSearchParameters
   \<and> Search sched search [] w = Search sched search [zeroSearchParameters] w
   \<and> Search sched search [] w =
       (case requestHTML search zeroSearchParameters w of
          (Inl err, w') \<Rightarrow> (Some (Inl (Wrap err ''error getting the nyaa page'')), w')
        | (Inr doc, w') \<Rightarrow>
           (case parseSearchPageHTML sched doc of
              None \<Rightarrow> (None, w')
            | Some (Inl err) \<Rightarrow> (Some (Inl (Wrap err ''error parsing html'')), w')
            | Some (Inr medias') \<Rightarrow> (Some (Inr medias'), w')))
   \<and> urlForParams search zeroSearchParameters =
       Inr (''https://nyaa.si?c=&f=0&o=&q='' @ QueryEscape search @ ''&s='')
   \<and> take (Suc (length (trace w))) (trace (snd (Search sched search [] w))) =
       trace w @ [HTTPGet (''https://nyaa.si?c=&f=0&o=&q='' @ QueryEscape search @ ''&s='')]"
proof -
  have p: "getOneParameterSet [] = Inr zeroSearchParameters"
    by (simp add: getOneParameterSet_def)
  have many: "length parameters > 1 \<longrightarrow>
      Search sched search parameters w = (Some (Inl (New ''only one parameter set accepted'')), w)"
    by (simp add: Search_def getOneParameterSet_def)
  have same: "Search sched search [] w = Search sched search [zeroSearchParameters] w"
    by (simp add: Search_def getOneParameterSet_def)
  have tr: "take (Suc (length (trace w))) (trace (snd (Search sched search [] w))) =
       trace w @ [HTTPGet (''https://nyaa.si?c=&f=0&o=&q='' @ QueryEscape search @ ''&s='')]"
    by (simp only: Search_world [OF p] requestHTML_trace [OF urlForParams_zero])
  from many p same Search_one_set [OF p, of sched search w] urlForParams_zero [of search] tr
  show ?thesis by blast
qed

theorem Search_parameter_sets_witness:
  "length [zeroSearchParameters, zeroSearchParameters\<lparr>User := ''bob''\<rparr>] = 2 \<and>
   Search [] ''naruto'' [zeroSearchParameters, zeroSearchParameters\<lparr>User := ''bob''\<rparr>] world404
     = (Some (Inl (New ''only one parameter set accepted'')), world404) \<and>
   trace world404 = [] \<and>
   take 1 (trace (snd (Search [] ''naruto'' [] world404))) =
     [HTTPGet ''https://nyaa.si?c=&f=0&o=&q=naruto&s='']"
proof -
  have t: "trace world404 = []" by (simp add: world404_def)
  have q: "QueryEscape ''naruto'' = ''naruto''"
    by (simp add: QueryEscape_def shouldEscape_def isAlnum_def)
  note inst = Search_parameter_sets [of "[zeroSearchParameters, zeroSearchParameters\<lparr>User := ''bob''\<rparr>]"
          "[]" "''naruto''" world404]
  from inst
  have a: "Search [] ''naruto'' [zeroSearchParameters, zeroSearchParameters\<lparr>User := ''bob''\<rparr>] world404
     = (Some (Inl (New ''only one parameter set accepted'')), world404)"
    by simp
  from inst
  have "take (Suc (length (trace world404))) (trace (snd (Search [] ''naruto'' [] world404))) =
       trace world404 @ [HTTPGet (''https://nyaa.si?c=&f=0&o=&q='' @ QueryEscape ''naruto'' @ ''&s='')]"
    by blast
  then have b: "take 1 (trace (snd (Search [] ''naruto'' [] world404))) =
     [HTTPGet ''https://nyaa.si?c=&f=0&o=&q=naruto&s='']"
    by (simp add: t q)
  from a b t show ?thesis by simp
qed

section \<open>Responses outside 2xx (claim C9)\<close>

text \<open>
  Claim C9: when the response to the request has a status code outside \<open>[200, 300)\<close>,
  \<open>Search\<close> fails with the error \<open>non-OK HTTP status code: <code> <status>\<close>, wrapped as
  \<open>error getting the nyaa page\<close>; the message carries the numeric code and the status
  text of the response. The world has seen the request and the closing of the body,
  and no parsing of the body into a document.
\<close>

theorem Search_non_2xx:
  assumes "getOneParameterSet parameters = Inr params"
    and "urlForParams search params = Inr URL"
    and "httpGet w URL = Inr rep"
    and "StatusCode rep < 200 \<or> StatusCode rep \<ge> 300"
  shows "Search sched search parameters w =
           (Some (Inl (Wrap (Errorf (''non-OK HTTP status code: '' @ FormatInt (StatusCode rep)
                                       @ '' '' @ Status rep))
                            ''error getting the nyaa page'')),
            w\<lparr>trace := trace w @ [HTTPGet URL, CloseBody]\<rparr>)"
  using assms by (auto simp: Search_def requestHTML_def Let_def)

theorem Search_non_2xx_witness:
  "getOneParameterSet [] = Inr zeroSearchParameters \<and>
   urlForParams ''naruto'' zeroSearchParameters = Inr ''https://nyaa.si?c=&f=0&o=&q=naruto&s='' \<and>
   httpGet world404 ''https://nyaa.si?c=&f=0&o=&q=naruto&s=''
     = Inr \<lparr>StatusCode = 404, Status = ''404 Not Found'', Body = ''<html></html>''\<rparr> \<and>
   Search [] ''naruto'' [] world404 =
     (Some (Inl (Wrap (Errorf ''non-OK HTTP status code: 404 404 Not Found'')
                      ''error getting the nyaa page'')),
      world404\<lparr>trace := [HTTPGet ''https://nyaa.si?c=&f=0&o=&q=naruto&s='', CloseBody]\<rparr>)"
proof -
  have p: "getOneParameterSet [] = Inr zeroSearchParameters"
    by (simp add: getOneParameterSet_def)
  have u: "urlForParams ''naruto'' zeroSearchParameters = Inr ''https://nyaa.si?c=&f=0&o=&q=naruto&s=''"
    by (simp add: urlForParams_closed zeroSearchParameters_def QueryEscape_def shouldEscape_def
          isAlnum_def FormatInt_def natDigits.simps digitChar_def)
  have g: "httpGet world404 ''https://nyaa.si?c=&f=0&o=&q=naruto&s=''
     = Inr \<lparr>StatusCode = 404, Status = ''404 Not Found'', Body = ''<html></html>''\<rparr>"
    by (simp add: world404_def)
  have f: "FormatInt 404 = ''404''"
    by (simp add: FormatInt_def natDigits.simps digitChar_def)
  have t: "trace world404 = []" by (simp add: world404_def)
  from Search_non_2xx [OF p u g, of "[]"] f t
  have "Search [] ''naruto'' [] world404 =
     (Some (Inl (Wrap (Errorf ''non-OK HTTP status code: 404 404 Not Found'')
                      ''error getting the nyaa page'')),
      world404\<lparr>trace := [HTTPGet ''https://nyaa.si?c=&f=0&o=&q=naruto&s='', CloseBody]\<rparr>)"
    by simp
  with p u g show ?thesis by blast
qed

section \<open>The page parser under every schedule\<close>

lemma parse_Some_iff:
  "parseSearchPageHTML sched doc = Some r \<longleftrightarrow>
   mainG (exec (doc ''.torrent-list tbody tr'') sched (init (doc ''.torrent-list tbody tr''))) = MReturned r"
  by (simp add: parseSearchPageHTML_def Let_def split: caller.splits)

lemma page_all_valid:
  assumes ok: "allOK (doc ''.torrent-list tbody tr'')"
  shows "\<forall>sched r. parseSearchPageHTML sched doc = Some r \<longrightarrow>
           (\<exists>ms. r = Inr ms \<and> length ms = length (doc ''.torrent-list tbody tr'') \<and>
                 (\<forall>i<length (doc ''.torrent-list tbody tr'').
                    parseMediaElement (doc ''.torrent-list tbody tr'' ! i) = Some (ms ! i, None)))"
    and "neverHangs doc"
    and "\<exists>sched ms. parseSearchPageHTML sched doc = Some (Inr ms)"
proof -
  let ?sel = "doc ''.torrent-list tbody tr''"
  have inv: "invOK ?sel (exec ?sel sched (init ?sel))" for sched
    by (rule invOK_exec [OF ok invOK_init])
  show res: "\<forall>sched r. parseSearchPageHTML sched doc = Some r \<longrightarrow>
           (\<exists>ms. r = Inr ms \<and> length ms = length ?sel \<and>
                 (\<forall>i<length ?sel. parseMediaElement (?sel ! i) = Some (ms ! i, None)))"
    using invOK_result [OF inv] by (simp add: parse_Some_iff)
  have prog: "\<exists>t. step ?sel t (exec ?sel sched (init ?sel)) \<noteq> None"
    if "mainG (exec ?sel sched (init ?sel)) = MSelect" for sched
    using invOK_progress [OF inv that] .
  then show "neverHangs doc"
    by (simp add: neverHangs_def Let_def effective_bound)
  from some_schedule_returns [of ?sel, OF prog]
  obtain sched r where "parseSearchPageHTML sched doc = Some r"
    by (auto simp: parse_Some_iff)
  with res show "\<exists>sched ms. parseSearchPageHTML sched doc = Some (Inr ms)" by blast
qed

lemma page_first_failure:
  assumes ff: "firstFail (doc ''.torrent-list tbody tr'') k err"
  shows "\<forall>sched r. parseSearchPageHTML sched doc = Some r \<longrightarrow>
           r = Inl (Wrap err ''error parsing media element'')"
    and "neverHangs doc"
    and "\<exists>sched. parseSearchPageHTML sched doc = Some (Inl (Wrap err ''error parsing media element''))"
proof -
  let ?sel = "doc ''.torrent-list tbody tr''"
  have inv: "invFail ?sel k err (exec ?sel sched (init ?sel))" for sched
    by (rule invFail_exec [OF ff invFail_init])
  show res: "\<forall>sched r. parseSearchPageHTML sched doc = Some r \<longrightarrow>
           r = Inl (Wrap err ''error parsing media element'')"
  proof (intro allI impI)
    fix sched r
    assume "parseSearchPageHTML sched doc = Some r"
    then have "mainG (exec ?sel sched (init ?sel)) = MReturned r" by (simp add: parse_Some_iff)
    with inv [of sched] show "r = Inl (Wrap err ''error parsing media element'')"
      by (simp add: invFail_def)
  qed
  have prog: "\<exists>t. step ?sel t (exec ?sel sched (init ?sel)) \<noteq> None"
    if "mainG (exec ?sel sched (init ?sel)) = MSelect" for sched
    using invFail_progress [OF ff inv that] .
  then show "neverHangs doc"
    by (simp add: neverHangs_def Let_def effective_bound)
  from some_schedule_returns [of ?sel, OF prog]
  obtain sched r where "parseSearchPageHTML sched doc = Some r"
    by (auto simp: parse_Some_iff)
  with res show "\<exists>sched. parseSearchPageHTML sched doc = Some (Inl (Wrap err ''error parsing media element''))"
    by blast
qed

lemma page_empty:
  assumes "doc ''.torrent-list tbody tr'' = []"
  shows "\<forall>sched r. parseSearchPageHTML sched doc = Some r \<longrightarrow> r = Inr []"
    and "neverHangs doc"
    and "\<exists>sched. parseSearchPageHTML sched doc = Some (Inr [])"
proof -
  have ok: "allOK (doc ''.torrent-list tbody tr'')" using assms by (simp add: allOK_def)
  from page_all_valid(1) [of doc, OF ok] assms
  show res: "\<forall>sched r. parseSearchPageHTML sched doc = Some r \<longrightarrow> r = Inr []" by auto
  show "neverHangs doc" by (rule page_all_valid(2) [of doc, OF ok])
  from page_all_valid(3) [of doc, OF ok] res
  show "\<exists>sched. parseSearchPageHTML sched doc = Some (Inr [])" by blast
qed

lemma exec_eval:
  "exec selection (t # ts) s = exec selection ts (case step selection t s of None \<Rightarrow> s | Some s' \<Rightarrow> s')"
  by (simp split: option.splits)


lemmas sched_eval =
  parseSearchPageHTML_def pageOf_def init_def exec_eval Let_def
  goodRow_parse threeLinkRow_parse sevenCellRow_parse

section \<open>Pages of valid rows (claim C2)\<close>

text \<open>
  Claim C2: when every row of the document extracts successfully, then under every
  schedule of the goroutines whatever \<open>parseSearchPageHTML\<close> returns is a list, as long
  as the document has rows, whose element \<open>i\<close> is the \<open>Media\<close> extracted from row \<open>i\<close>;
  some schedule does return, and no schedule hangs. A document without rows gives the
  empty list and no error.
\<close>

theorem parseSearchPageHTML_valid_rows:
  assumes "\<forall>i<length (doc ''.torrent-list tbody tr'').
             \<exists>m. parseMediaElement (doc ''.torrent-list tbody tr'' ! i) = Some (m, None)"
  shows "(\<forall>sched r. parseSearchPageHTML sched doc = Some r \<longrightarrow>
           (\<exists>ms. r = Inr ms \<and> length ms = length (doc ''.torrent-list tbody tr'') \<and>
                 (\<forall>i<length (doc ''.torrent-list tbody tr'').
                    parseMediaElement (doc ''.torrent-list tbody tr'' ! i) = Some (ms ! i, None))))
         \<and> (\<exists>sched ms. parseSearchPageHTML sched doc = Some (Inr ms))
         \<and> neverHangs doc
         \<and> (doc ''.torrent-list tbody tr'' = [] \<longrightarrow>
              (\<forall>sched r. parseSearchPageHTML sched doc = Some r \<longrightarrow> r = Inr []))"
proof -
  from assms have ok: "allOK (doc ''.torrent-list tbody tr'')" by (simp add: allOK_def)
  show ?thesis
    using page_all_valid [of doc, OF ok] page_empty(1) [of doc] by blast
qed

theorem parseSearchPageHTML_valid_rows_witness:
  "pageOf [goodRow, goodRow] ''.torrent-list tbody tr'' = [goodRow, goodRow] \<and>
   parseMediaElement goodRow = Some (goodMedia, None) \<and>
   parseSearchPageHTML [Worker, Worker, Worker, Worker, Waiter, MainDone] (pageOf [goodRow, goodRow])
     = Some (Inr [goodMedia, goodMedia]) \<and>
   parseSearchPageHTML [Worker, Waiter, MainErr, Worker, MainDone, Worker, Worker, Waiter, MainErr, MainDone]
       (pageOf [goodRow, goodRow])
     = Some (Inr [goodMedia, goodMedia]) \<and>
   neverHangs (pageOf [goodRow, goodRow])"
proof -
  have rows: "pageOf [goodRow, goodRow] ''.torrent-list tbody tr'' = [goodRow, goodRow]"
    by (simp add: pageOf_def)
  have h: "\<forall>i<length (pageOf [goodRow, goodRow] ''.torrent-list tbody tr'').
             \<exists>m. parseMediaElement (pageOf [goodRow, goodRow] ''.torrent-list tbody tr'' ! i) = Some (m, None)"
    by (simp add: rows goodRow_parse less_Suc_eq)
  have a: "parseSearchPageHTML [Worker, Worker, Worker, Worker, Waiter, MainDone] (pageOf [goodRow, goodRow])
     = Some (Inr [goodMedia, goodMedia])"
    by (simp add: sched_eval)
  have b: "parseSearchPageHTML [Worker, Waiter, MainErr, Worker, MainDone, Worker, Worker, Waiter, MainErr, MainDone]
       (pageOf [goodRow, goodRow])
     = Some (Inr [goodMedia, goodMedia])"
    by (simp add: sched_eval)
  from parseSearchPageHTML_valid_rows [of "pageOf [goodRow, goodRow]", OF h] have "neverHangs (pageOf [goodRow, goodRow])" by blast
  with rows goodRow_parse a b show ?thesis by blast
qed

section \<open>Pages with one malformed row (claim C3)\<close>

text \<open>
  Claim C3: when row \<open>k\<close> of the document is malformed and every other row is valid,
  then under every schedule whatever \<open>parseSearchPageHTML\<close> returns is an error, never
  a list; some schedule does return, and no schedule hangs. A document without rows
  does not hang either and gives the empty list.
\<close>

theorem parseSearchPageHTML_one_malformed_row:
  "(k < length (doc ''.torrent-list tbody tr'') \<and>
    (\<exists>m err. parseMediaElement (doc ''.torrent-list tbody tr'' ! k) = Some (m, Some err)) \<and>
    (\<forall>j<length (doc ''.torrent-list tbody tr''). j \<noteq> k \<longrightarrow>
        (\<exists>m. parseMediaElement (doc ''.torrent-list tbody tr'' ! j) = Some (m, None)))
    \<longrightarrow> (\<forall>sched r. parseSearchPageHTML sched doc = Some r \<longrightarrow> (\<exists>e. r = Inl e))
         \<and> (\<exists>sched e. parseSearchPageHTML sched doc = Some (Inl e))
         \<and> neverHangs doc)
   \<and> (doc ''.torrent-list tbody tr'' = []
    \<longrightarrow> (\<forall>sched r. parseSearchPageHTML sched doc = Some r \<longrightarrow> r = Inr [])
         \<and> (\<exists>sched. parseSearchPageHTML sched doc = Some (Inr []))
         \<and> neverHangs doc)"
proof (intro conjI impI)
  assume a: "k < length (doc ''.torrent-list tbody tr'') \<and>
    (\<exists>m err. parseMediaElement (doc ''.torrent-list tbody tr'' ! k) = Some (m, Some err)) \<and>
    (\<forall>j<length (doc ''.torrent-list tbody tr''). j \<noteq> k \<longrightarrow>
        (\<exists>m. parseMediaElement (doc ''.torrent-list tbody tr'' ! j) = Some (m, None)))"
  then obtain m err where
    "parseMediaElement (doc ''.torrent-list tbody tr'' ! k) = Some (m, Some err)" by blast
  with a have ff: "firstFail (doc ''.torrent-list tbody tr'') k err"
    by (auto simp: firstFail_def)
  show "\<forall>sched r. parseSearchPageHTML sched doc = Some r \<longrightarrow> (\<exists>e. r = Inl e)"
    using page_first_failure(1) [of doc, OF ff] by blast
  show "\<exists>sched e. parseSearchPageHTML sched doc = Some (Inl e)"
    using page_first_failure(3) [of doc, OF ff] by blast
  show "neverHangs doc" by (rule page_first_failure(2) [of doc, OF ff])
next
  assume e: "doc ''.torrent-list tbody tr'' = []"
  show "\<forall>sched r. parseSearchPageHTML sched doc = Some r \<longrightarrow> r = Inr []"
    by (rule page_empty(1) [of doc, OF e])
  show "\<exists>sched. parseSearchPageHTML sched doc = Some (Inr [])"
    by (rule page_empty(3) [of doc, OF e])
  show "neverHangs doc" by (rule page_empty(2) [of doc, OF e])
qed

theorem parseSearchPageHTML_one_malformed_row_witness:
  "pageOf [goodRow, threeLinkRow, goodRow] ''.torrent-list tbody tr'' = [goodRow, threeLinkRow, goodRow] \<and>
   parseMediaElement threeLinkRow =
     Some (zeroMedia, Some (Errorf ''unexpected layout: expected 4 links, got 3'')) \<and>
   parseMediaElement goodRow = Some (goodMedia, None) \<and>
   parseSearchPageHTML [Worker, Worker, Worker, MainErr] (pageOf [goodRow, threeLinkRow, goodRow])
     = Some (Inl (Wrap (Errorf ''unexpected layout: expected 4 links, got 3'')
                       ''error parsing media element'')) \<and>
   neverHangs (pageOf [goodRow, threeLinkRow, goodRow]) \<and>
   pageOf [] ''.torrent-list tbody tr'' = [] \<and>
   parseSearchPageHTML [Waiter, MainDone] (pageOf []) = Some (Inr []) \<and>
   neverHangs (pageOf [])"
proof -
  let ?doc = "pageOf [goodRow, threeLinkRow, goodRow]"
  have rows: "?doc ''.torrent-list tbody tr'' = [goodRow, threeLinkRow, goodRow]"
    and none: "pageOf [] ''.torrent-list tbody tr'' = []"
    by (simp_all add: pageOf_def)
  have h: "1 < length (?doc ''.torrent-list tbody tr'') \<and>
    (\<exists>m err. parseMediaElement (?doc ''.torrent-list tbody tr'' ! 1) = Some (m, Some err)) \<and>
    (\<forall>j<length (?doc ''.torrent-list tbody tr''). j \<noteq> 1 \<longrightarrow>
        (\<exists>m. parseMediaElement (?doc ''.torrent-list tbody tr'' ! j) = Some (m, None)))"
    by (simp add: rows goodRow_parse threeLinkRow_parse less_Suc_eq)
  have a: "parseSearchPageHTML [Worker, Worker, Worker, MainErr] ?doc
     = Some (Inl (Wrap (Errorf ''unexpected layout: expected 4 links, got 3'')
                       ''error parsing media element''))"
    by (simp add: sched_eval)
  have b: "parseSearchPageHTML [Waiter, MainDone] (pageOf []) = Some (Inr [])"
    by (simp add: sched_eval)
  from parseSearchPageHTML_one_malformed_row [of 1 ?doc] h
  have c: "neverHangs ?doc" by blast
  from parseSearchPageHTML_one_malformed_row [of 0 "pageOf []"] none
  have d: "neverHangs (pageOf [])" by blast
  from rows threeLinkRow_parse goodRow_parse a c none b d show ?thesis by blast
qed

section \<open>Pages with several malformed rows (claim C10)\<close>

text \<open>
  Claim C10: the rows are extracted one after the other, in document order, by the one
  goroutine that runs \<open>selection.Each\<close>. When the document has two malformed rows or
  more, and row \<open>k\<close> is the first of them, then under every schedule whatever
  \<open>parseSearchPageHTML\<close> returns is the error of row \<open>k\<close>, wrapped as
  \<open>error parsing media element\<close>; and some schedule does return it.
\<close>

theorem parseSearchPageHTML_first_error_wins:
  assumes "k < k'" and "k' < length (doc ''.torrent-list tbody tr'')"
    and "parseMediaElement (doc ''.torrent-list tbody tr'' ! k) = Some (m, Some err)"
    and "parseMediaElement (doc ''.torrent-list tbody tr'' ! k') = Some (m', Some err')"
    and "\<forall>j<k. \<exists>mj. parseMediaElement (doc ''.torrent-list tbody tr'' ! j) = Some (mj, None)"
  shows "(\<forall>sched r. parseSearchPageHTML sched doc = Some r \<longrightarrow>
            r = Inl (Wrap err ''error parsing media element''))
         \<and> (\<exists>sched. parseSearchPageHTML sched doc = Some (Inl (Wrap err ''error parsing media element'')))"
proof -
  from assms have ff: "firstFail (doc ''.torrent-list tbody tr'') k err"
    by (auto simp: firstFail_def)
  show ?thesis
    using page_first_failure(1) [of doc, OF ff] page_first_failure(3) [of doc, OF ff] by blast
qed

theorem parseSearchPageHTML_first_error_wins_witness:
  "pageOf [goodRow, threeLinkRow, sevenCellRow] ''.torrent-list tbody tr''
     = [goodRow, threeLinkRow, sevenCellRow] \<and>
   parseMediaElement goodRow = Some (goodMedia, None) \<and>
   parseMediaElement threeLinkRow =
     Some (zeroMedia, Some (Errorf ''unexpected layout: expected 4 links, got 3'')) \<and>
   (\<exists>m. parseMediaElement sevenCellRow =
     Some (m, Some (Errorf ''unexpected layout: expected 8 nodes, got 7''))) \<and>
   parseSearchPageHTML [Worker, Waiter, MainDone, Worker, Worker, Waiter, MainErr, Worker, Worker, MainErr]
       (pageOf [goodRow, threeLinkRow, sevenCellRow])
     = Some (Inl (Wrap (Errorf ''unexpected layout: expected 4 links, got 3'')
                       ''error parsing media element'')) \<and>
   (\<exists>sched. parseSearchPageHTML sched (pageOf [goodRow, threeLinkRow, sevenCellRow]) =
      Some (Inl (Wrap (Errorf ''unexpected layout: expected 4 links, got 3'')
                      ''error parsing media element'')))"
proof -
  let ?doc = "pageOf [goodRow, threeLinkRow, sevenCellRow]"
  have rows: "?doc ''.torrent-list tbody tr'' = [goodRow, threeLinkRow, sevenCellRow]"
    by (simp add: pageOf_def)
  have k: "(1::nat) < 2" and k': "2 < length (?doc ''.torrent-list tbody tr'')"
    by (simp_all add: rows)
  have r1: "parseMediaElement (?doc ''.torrent-list tbody tr'' ! 1) =
     Some (zeroMedia, Some (Errorf ''unexpected layout: expected 4 links, got 3''))"
    by (simp add: rows threeLinkRow_parse)
  have r2: "parseMediaElement (?doc ''.torrent-list tbody tr'' ! 2) =
     Some (zeroMedia\<lparr>Category := ''1_2'', ID := 123, Name := ''Foo'',
                      Torrent := ''/download/123.torrent'', Magnet := ''magnet:?xt=urn''\<rparr>,
           Some (Errorf ''unexpected layout: expected 8 nodes, got 7''))"
    by (simp add: rows sevenCellRow_parse)
  have r0: "\<forall>j<1. \<exists>mj. parseMediaElement (?doc ''.torrent-list tbody tr'' ! j) = Some (mj, None)"
    by (simp add: rows goodRow_parse)
  have a: "parseSearchPageHTML [Worker, Waiter, MainDone, Worker, Worker, Waiter, MainErr, Worker, Worker, MainErr] ?doc
     = Some (Inl (Wrap (Errorf ''unexpected layout: expected 4 links, got 3'')
                       ''error parsing media element''))"
    by (simp add: sched_eval)
  from parseSearchPageHTML_first_error_wins [where doc = ?doc, OF k k' r1 r2 r0]
  have b: "\<exists>sched. parseSearchPageHTML sched ?doc =
      Some (Inl (Wrap (Errorf ''unexpected layout: expected 4 links, got 3'')
                      ''error parsing media element''))" by blast
  from rows goodRow_parse threeLinkRow_parse sevenCellRow_parse a b show ?thesis by blast
qed

end
